theory Spec2Isabelle
  imports Main "HOL-Library.Word"
begin

unbundle bit_operations_syntax

section \<open>Python values seen by \<^verbatim>\<open>backend/transcribe.py\<close>\<close>

text \<open>
  A Python \<^verbatim>\<open>str\<close> is a sequence of Unicode code points. The text streams of the
  process hold code points as well.
\<close>

type_synonym pystr = "nat list"

definition ascii :: "string \<Rightarrow> pystr" where
  "ascii s = map of_char s"

text \<open>
  The values the script handles: strings, dictionaries with string keys (in insertion
  order), and objects of any other class, which are neither subscriptable nor JSON
  serialisable; such an object is known by the name of its class.
\<close>

datatype pyval =
    PStr pystr
  | PDict "(pystr \<times> pyval) list"
  | PObject pystr

text \<open>
  An instance of Python's \<^verbatim>\<open>Exception\<close>, raised synchronously by a call: its class
  and \<^verbatim>\<open>str(e)\<close>. \<^verbatim>\<open>OSError\<close> stands for that class and its subclasses,
  \<^verbatim>\<open>OtherException\<close> for every class of exception not listed, by name.
\<close>

datatype exc_class =
    KeyError | TypeError | IndexError | AttributeError | OSError | OtherException pystr

datatype py_exception = PyExc (exc_class: exc_class) (exc_str: pystr)

section \<open>\<^verbatim>\<open>json.dumps\<close> with its defaults (\<^verbatim>\<open>ensure_ascii=True\<close>)\<close>

definition hex_digit :: "nat \<Rightarrow> nat" where
  "hex_digit d = (if d < 10 then 48 + d else 87 + d)"

fun hex_digits :: "nat \<Rightarrow> pystr" where
  "hex_digits n = (if n < 16 then [hex_digit n] else hex_digits (n div 16) @ [hex_digit (n mod 16)])"

declare hex_digits.simps [simp del]

text \<open>\<^verbatim>\<open>'{0:04x}'.format(n)\<close>: lower-case hexadecimal, padded with zeros to four digits.\<close>

definition format_04x :: "nat \<Rightarrow> pystr" where
  "format_04x n = (let ds = hex_digits n in replicate (4 - length ds) 48 @ ds)"

text \<open>
  The replacement of one character in \<^verbatim>\<open>py_encode_basestring_ascii\<close>: backslash and
  the double quote are escaped, the other characters from space to tilde stay, the
  control characters with a short escape use it, and everything else becomes
  \<^verbatim>\<open>\uXXXX\<close>, as a surrogate pair from \<^verbatim>\<open>0x10000\<close> on.
\<close>

definition escape_char :: "nat \<Rightarrow> pystr" where
  "escape_char c =
     (if c = 92 then [92, 92]
      else if c = 34 then [92, 34]
      else if 32 \<le> c \<and> c \<le> 126 then [c]
      else if c = 8 then [92, 98]
      else if c = 12 then [92, 102]
      else if c = 10 then [92, 110]
      else if c = 13 then [92, 114]
      else if c = 9 then [92, 116]
      else if c < 0x10000 then [92, 117] @ format_04x c
      else
        (let n = c - 0x10000;
             s1 = 0xd800 OR (drop_bit 10 n AND 0x3ff);
             s2 = 0xdc00 OR (n AND 0x3ff)
         in [92, 117] @ format_04x s1 @ [92, 117] @ format_04x s2))"

definition encode_basestring_ascii :: "pystr \<Rightarrow> pystr" where
  "encode_basestring_ascii s = [34] @ concat (map escape_char s) @ [34]"

text \<open>
  \<^verbatim>\<open>json.dumps\<close>: a string is encoded, a dictionary is written with the separators
  \<^verbatim>\<open>", "\<close> and \<^verbatim>\<open>": "\<close>, and any other object raises \<^verbatim>\<open>TypeError\<close>.
\<close>

definition not_serializable :: "pystr \<Rightarrow> py_exception" where
  "not_serializable cls =
     PyExc TypeError (ascii ''Object of type '' @ cls @ ascii '' is not JSON serializable'')"

fun json_dumps :: "pyval \<Rightarrow> py_exception + pystr"
  and json_items :: "(pystr \<times> pyval) list \<Rightarrow> py_exception + pystr" where
  "json_dumps (PStr s) = Inr (encode_basestring_ascii s)"
| "json_dumps (PObject cls) = Inl (not_serializable cls)"
| "json_dumps (PDict kvs) =
     (case json_items kvs of
        Inl e \<Rightarrow> Inl e
      | Inr body \<Rightarrow> Inr ([123] @ body @ [125]))"
| "json_items [] = Inr []"
| "json_items ((k, v) # kvs) =
     (case json_dumps v of
        Inl e \<Rightarrow> Inl e
      | Inr sv \<Rightarrow>
         (case json_items kvs of
            Inl e \<Rightarrow> Inl e
          | Inr others \<Rightarrow>
             Inr (encode_basestring_ascii k @ [58, 32] @ sv @
                  (if kvs = [] then [] else [44, 32] @ others))))"

section \<open>The world outside the script\<close>

text \<open>
  The file system, the Whisper library, the standard output and the interpreter are
  outside the script:
  \<^item> \<^verbatim>\<open>path_exists\<close> is \<^verbatim>\<open>os.path.exists\<close>;
  \<^item> \<^verbatim>\<open>load_model\<close> is \<^verbatim>\<open>whisper.load_model\<close> and \<^verbatim>\<open>model_transcribe\<close> is the
    \<^verbatim>\<open>transcribe\<close> method of the loaded model, each returning a value or raising;
  \<^item> \<^verbatim>\<open>stdout_fault\<close> is the exception that writing to the standard output raises,
    if it raises (the standard error stream takes every write);
  \<^item> \<^verbatim>\<open>py_repr\<close> is \<^verbatim>\<open>repr\<close> on strings, \<^verbatim>\<open>is_decimal\<close> tells the characters that
    \<^verbatim>\<open>\d\<close> matches, \<^verbatim>\<open>basename\<close> is \<^verbatim>\<open>os.path.basename\<close>;
  \<^item> \<^verbatim>\<open>usage_line\<close> and \<^verbatim>\<open>help_body\<close> are the texts that argparse's help formatter
    gives for the parser of the script, after \<^verbatim>\<open>usage: \<close> and after the usage
    paragraph (they depend on the program name and on the width of the terminal);
  \<^item> \<^verbatim>\<open>traceback_text\<close> is what the interpreter writes for an uncaught exception.
\<close>

record 'm world =
  path_exists :: "pystr \<Rightarrow> bool"
  load_model :: "pystr \<Rightarrow> py_exception + 'm"
  model_transcribe :: "'m \<Rightarrow> pystr \<Rightarrow> bool \<Rightarrow> pystr option \<Rightarrow> py_exception + pyval"
  stdout_fault :: "py_exception option"
  py_repr :: "pystr \<Rightarrow> pystr"
  is_decimal :: "nat \<Rightarrow> bool"
  basename :: "pystr \<Rightarrow> pystr"
  usage_line :: "pystr \<Rightarrow> pystr"
  help_body :: "pystr"
  traceback_text :: "py_exception \<Rightarrow> pystr"

text \<open>The calls the script makes into the world, in order.\<close>

datatype 'm call =
    PathExists pystr
  | LoadModel pystr
  | Transcribe 'm pystr bool "pystr option"

record 'm proc =
  stdout :: pystr
  stderr :: pystr
  calls :: "'m call list"

definition proc0 :: "'m proc" where
  "proc0 = \<lparr>stdout = [], stderr = [], calls = []\<rparr>"

text \<open>
  How a piece of the script ends: it returns, it raises \<^verbatim>\<open>SystemExit\<close> with a
  status, or an exception leaves it uncaught.
\<close>

datatype outcome = Returned | SysExit nat | Uncaught py_exception

definition log_call :: "'m call \<Rightarrow> 'm proc \<Rightarrow> 'm proc" where
  "log_call c p = p\<lparr>calls := calls p @ [c]\<rparr>"

text \<open>\<^verbatim>\<open>print(s)\<close> and \<^verbatim>\<open>print(s, file=sys.stderr)\<close> write the string and a newline.\<close>

definition print_stdout :: "'m world \<Rightarrow> pystr \<Rightarrow> 'm proc \<Rightarrow> (py_exception + unit) \<times> 'm proc" where
  "print_stdout w s p =
     (case stdout_fault w of
        Some e \<Rightarrow> (Inl e, p)
      | None \<Rightarrow> (Inr (), p\<lparr>stdout := stdout p @ s @ [10]\<rparr>))"

definition print_stderr :: "pystr \<Rightarrow> 'm proc \<Rightarrow> 'm proc" where
  "print_stderr s p = p\<lparr>stderr := stderr p @ s @ [10]\<rparr>"

text \<open>\<^verbatim>\<open>result["text"]\<close>\<close>

definition getitem :: "'m world \<Rightarrow> pyval \<Rightarrow> pystr \<Rightarrow> py_exception + pyval" where
  "getitem w obj k =
     (case obj of
        PDict kvs \<Rightarrow>
          (case map_of kvs k of
             Some v \<Rightarrow> Inr v
           | None \<Rightarrow> Inl (PyExc KeyError (py_repr w k)))
      | PStr s \<Rightarrow>
          Inl (PyExc TypeError
                 (ascii ''string indices must be integers, not '' @ [39] @ ascii ''str'' @ [39]))
      | PObject cls \<Rightarrow>
          Inl (PyExc TypeError ([39] @ cls @ [39] @ ascii '' object is not subscriptable'')))"

section \<open>\<^verbatim>\<open>transcribe_audio\<close>\<close>

definition MODEL_SIZE :: pystr where
  "MODEL_SIZE = ascii ''base''"

definition USE_FP16 :: bool where
  "USE_FP16 = False"

definition not_found_message :: "pystr \<Rightarrow> pystr" where
  "not_found_message file_path = ascii ''Archivo de audio no encontrado: '' @ file_path"

definition error_message :: "py_exception \<Rightarrow> pystr" where
  "error_message e =
     ascii ''Error durante el proceso de transcripci'' @ [243] @ ascii ''n: '' @ exc_str e"

text \<open>The body of the \<^verbatim>\<open>try\<close> statement, lines 47 to 64.\<close>

definition try_body :: "'m world \<Rightarrow> pystr \<Rightarrow> pystr option \<Rightarrow> 'm proc \<Rightarrow> (py_exception + unit) \<times> 'm proc" where
  "try_body w file_path language_code p =
     (let p1 = log_call (LoadModel MODEL_SIZE) p in
      case load_model w MODEL_SIZE of
        Inl e \<Rightarrow> (Inl e, p1)
      | Inr model \<Rightarrow>
         (let p2 = log_call (Transcribe model file_path USE_FP16 language_code) p1 in
          case model_transcribe w model file_path USE_FP16 language_code of
            Inl e \<Rightarrow> (Inl e, p2)
          | Inr result \<Rightarrow>
             (case getitem w result (ascii ''text'') of
                Inl e \<Rightarrow> (Inl e, p2)
              | Inr text \<Rightarrow>
                 (case json_dumps (PDict [(ascii ''transcription'', text)]) of
                    Inl e \<Rightarrow> (Inl e, p2)
                  | Inr s \<Rightarrow> print_stdout w s p2))))"

text \<open>
  Printing an error object and leaving with status 1, as both the missing-file branch
  and the handler do. \<^verbatim>\<open>json.dumps\<close> is called outside any \<^verbatim>\<open>try\<close> here, so an
  exception of it would leave the script uncaught.
\<close>

definition report_error :: "pystr \<Rightarrow> 'm proc \<Rightarrow> outcome \<times> 'm proc" where
  "report_error msg p =
     (case json_dumps (PDict [(ascii ''error'', PStr msg)]) of
        Inl e \<Rightarrow> (Uncaught e, p)
      | Inr s \<Rightarrow> (SysExit 1, print_stderr s p))"

definition transcribe_audio :: "'m world \<Rightarrow> pystr \<Rightarrow> pystr option \<Rightarrow> 'm proc \<Rightarrow> outcome \<times> 'm proc" where
  "transcribe_audio w file_path language_code p =
     (let p1 = log_call (PathExists file_path) p in
      if \<not> path_exists w file_path then report_error (not_found_message file_path) p1
      else
        (case try_body w file_path language_code p1 of
           (Inr u, p2) \<Rightarrow> (Returned, p2)
         | (Inl e, p2) \<Rightarrow> report_error (error_message e) p2))"

section \<open>The command line\<close>

text \<open>
  The script builds an \<^verbatim>\<open>argparse.ArgumentParser\<close> with the positional argument
  \<^verbatim>\<open>audio_file\<close>, the option \<^verbatim>\<open>-l/--language\<close> taking one string, and the option
  \<^verbatim>\<open>-h/--help\<close> that argparse adds. What follows is \<^verbatim>\<open>parse_args\<close> of CPython 3.11
  for that parser: first every argument string is classified, then positionals and
  optionals are consumed from left to right.
\<close>

datatype opt_action = HelpAction | LanguageAction

definition option_string_actions :: "(pystr \<times> opt_action) list" where
  "option_string_actions =
     [(ascii ''-h'', HelpAction), (ascii ''--help'', HelpAction),
      (ascii ''-l'', LanguageAction), (ascii ''--language'', LanguageAction)]"

datatype argparse_error =
    AmbiguousOption pystr "pystr list"
  | UnexpectedOptionString pystr
  | ExpectedOneArgument
  | IgnoredExplicitArgument pystr
  | RequiredArguments
  | UnrecognizedArguments "pystr list"

text \<open>An option tuple: the action, the option string, the separator, the explicit argument.\<close>

type_synonym option_tuple = "opt_action option \<times> pystr \<times> pystr option \<times> pystr option"

definition startswith :: "pystr \<Rightarrow> pystr \<Rightarrow> bool" where
  "startswith s p = (take (length p) s = p)"

text \<open>\<^verbatim>\<open>s.partition('=')\<close>\<close>

definition partition_eq :: "pystr \<Rightarrow> pystr \<times> pystr \<times> pystr" where
  "partition_eq s =
     (if 61 \<in> set s
      then (takeWhile (\<lambda>c. c \<noteq> 61) s, [61], tl (dropWhile (\<lambda>c. c \<noteq> 61) s))
      else (s, [], []))"

text \<open>
  The matcher \<^verbatim>\<open>'^-\d+$|^-\d*\.\d+$'\<close>; \<^verbatim>\<open>$\<close> also matches before a newline that
  ends the string.
\<close>

definition negative_number_like :: "'m world \<Rightarrow> pystr \<Rightarrow> bool" where
  "negative_number_like w s =
     (case (if s \<noteq> [] \<and> last s = 10 then butlast s else s) of
        [] \<Rightarrow> False
      | c # r \<Rightarrow>
          c = 45 \<and>
          (let ds = takeWhile (is_decimal w) r; rest = dropWhile (is_decimal w) r
           in (ds \<noteq> [] \<and> rest = []) \<or>
              (case rest of
                 [] \<Rightarrow> False
               | d # fs \<Rightarrow> d = 46 \<and> fs \<noteq> [] \<and> list_all (is_decimal w) fs)))"

definition get_option_tuples :: "pystr \<Rightarrow> argparse_error + option_tuple list" where
  "get_option_tuples s =
     (case s of
        c0 # c1 # cs \<Rightarrow>
          if c0 = 45 \<and> c1 = 45 then
            (case partition_eq s of
               (option_prefix, sep, explicit_arg) \<Rightarrow>
                 Inr (concat (map (\<lambda>(os, a).
                        if startswith os option_prefix
                        then [(Some a, os,
                               if sep = [] then None else Some sep,
                               if sep = [] then None else Some explicit_arg)]
                        else []) option_string_actions)))
          else if c0 = 45 \<and> c1 \<noteq> 45 then
            Inr (concat (map (\<lambda>(os, a).
                   if os = take 2 s then [(Some a, os, Some [], Some (drop 2 s))]
                   else if startswith os s then [(Some a, os, None, None)]
                   else []) option_string_actions))
          else Inl (UnexpectedOptionString s)
      | _ \<Rightarrow> Inl (UnexpectedOptionString s))"

text \<open>\<^verbatim>\<open>_parse_optional\<close>: \<^verbatim>\<open>None\<close> for a positional, an option tuple otherwise.\<close>

definition parse_optional :: "'m world \<Rightarrow> pystr \<Rightarrow> argparse_error + option_tuple option" where
  "parse_optional w s =
     (if s = [] then Inr None
      else if hd s \<noteq> 45 then Inr None
      else
        (case map_of option_string_actions s of
           Some a \<Rightarrow> Inr (Some (Some a, s, None, None))
         | None \<Rightarrow>
            if length s = 1 then Inr None
            else
              (case partition_eq s of
                 (option_string, sep, explicit_arg) \<Rightarrow>
                   (case (if sep \<noteq> [] then map_of option_string_actions option_string else None) of
                      Some a \<Rightarrow> Inr (Some (Some a, option_string, Some sep, Some explicit_arg))
                    | None \<Rightarrow>
                       (case get_option_tuples s of
                          Inl e \<Rightarrow> Inl e
                        | Inr option_tuples \<Rightarrow>
                           if length option_tuples > 1
                           then Inl (AmbiguousOption s (map (\<lambda>t. fst (snd t)) option_tuples))
                           else if length option_tuples = 1 then Inr (Some (hd option_tuples))
                           else if negative_number_like w s then Inr None
                           else if 32 \<in> set s then Inr None
                           else Inr (Some (None, s, None, None)))))))"

text \<open>
  The pattern of the argument strings: \<^verbatim>\<open>A\<close> for an argument, \<^verbatim>\<open>O\<close> for an option,
  \<^verbatim>\<open>-\<close> for the first \<^verbatim>\<open>--\<close>, after which everything is an argument.
\<close>

datatype arg_class = ArgA | ArgDash | ArgO option_tuple

fun classify_args :: "'m world \<Rightarrow> pystr list \<Rightarrow> argparse_error + (pystr \<times> arg_class) list" where
  "classify_args w [] = Inr []"
| "classify_args w (s # rest) =
     (if s = [45, 45] then Inr ((s, ArgDash) # map (\<lambda>t. (t, ArgA)) rest)
      else
        (case parse_optional w s of
           Inl e \<Rightarrow> Inl e
         | Inr t \<Rightarrow>
            (case classify_args w rest of
               Inl e \<Rightarrow> Inl e
             | Inr others \<Rightarrow>
                Inr ((s, case t of None \<Rightarrow> ArgA | Some ot \<Rightarrow> ArgO ot) # others))))"

text \<open>
  What consuming one known option does: an error, the help action (which prints the
  help and exits), or a value for \<^verbatim>\<open>language\<close>, taken from the explicit argument or
  (\<^verbatim>\<open>True\<close>) from the next argument string.
\<close>

datatype consumed = Fail argparse_error | Help | Language pystr bool

text \<open>
  The loop of \<^verbatim>\<open>consume_optional\<close>. \<^verbatim>\<open>queued\<close> tells that the help action is already
  in the list of actions to take, from a single-dash string such as \<^verbatim>\<open>-hl\<close>;
  \<^verbatim>\<open>nxt\<close> is the next argument string when the pattern has \<^verbatim>\<open>A\<close> there.
\<close>

fun match_optional ::
  "opt_action \<Rightarrow> pystr \<Rightarrow> pystr option \<Rightarrow> pystr option \<Rightarrow> bool \<Rightarrow> pystr option \<Rightarrow> consumed" where
  "match_optional HelpAction ostr sep None queued nxt = Help"
| "match_optional LanguageAction ostr sep None queued nxt =
     (case nxt of
        None \<Rightarrow> Fail ExpectedOneArgument
      | Some v \<Rightarrow> if queued then Help else Language v True)"
| "match_optional LanguageAction ostr sep (Some e) queued nxt =
     (if queued then Help else Language e False)"
| "match_optional HelpAction ostr sep (Some []) queued nxt = Fail (IgnoredExplicitArgument [])"
| "match_optional HelpAction ostr sep (Some (c # e)) queued nxt =
     (if ostr ! 1 = 45 then Fail (IgnoredExplicitArgument (c # e))
      else if (sep \<noteq> None \<and> sep \<noteq> Some []) \<or> c = 45 then Fail (IgnoredExplicitArgument (c # e))
      else
        (case map_of option_string_actions [45, c] of
           None \<Rightarrow> Help
         | Some a \<Rightarrow>
            (case e of
               [] \<Rightarrow> match_optional a [45, c] None None True nxt
             | d # e' \<Rightarrow>
                if d = 61 then match_optional a [45, c] (Some [61]) (Some e') True nxt
                else match_optional a [45, c] (Some []) (Some (d # e')) True nxt)))"

datatype parse_outcome = Namespace pystr "pystr option" | HelpExit | ErrorExit argparse_error

definition has_optional :: "(pystr \<times> arg_class) list \<Rightarrow> bool" where
  "has_optional items = list_ex (\<lambda>(s, c). case c of ArgO t \<Rightarrow> True | _ \<Rightarrow> False) items"

definition next_positional :: "(pystr \<times> arg_class) list \<Rightarrow> pystr option" where
  "next_positional items = (case items of (v, ArgA) # others \<Rightarrow> Some v | _ \<Rightarrow> None)"

text \<open>
  After the last option: the positional takes \<^verbatim>\<open>A\<close>, \<^verbatim>\<open>A-\<close> or \<^verbatim>\<open>-A\<close> from the front
  of what is left unless it has a value already, the other strings are extras; then
  the required argument is checked, then \<^verbatim>\<open>parse_args\<close> rejects extras.
\<close>

definition consume_tail ::
  "(pystr \<times> arg_class) list \<Rightarrow> pystr option \<Rightarrow> pystr option \<Rightarrow> pystr list \<Rightarrow> parse_outcome" where
  "consume_tail items audio lang extras =
     (case (case audio of
              Some a \<Rightarrow> (Some a, extras @ map fst items)
            | None \<Rightarrow>
               (case items of
                  (s, ArgA) # (d, ArgDash) # others \<Rightarrow> (Some s, extras @ map fst others)
                | (s, ArgA) # others \<Rightarrow> (Some s, extras @ map fst others)
                | (d, ArgDash) # (s, ArgA) # others \<Rightarrow> (Some s, extras @ map fst others)
                | _ \<Rightarrow> (None, extras @ map fst items))) of
        (None, extras') \<Rightarrow> ErrorExit RequiredArguments
      | (Some a, extras') \<Rightarrow>
          if extras' \<noteq> [] then ErrorExit (UnrecognizedArguments extras') else Namespace a lang)"

text \<open>Up to the last option: positionals and optionals alternate.\<close>

fun consume ::
  "(pystr \<times> arg_class) list \<Rightarrow> pystr option \<Rightarrow> pystr option \<Rightarrow> pystr list \<Rightarrow> parse_outcome" where
  "consume [] audio lang extras = consume_tail [] audio lang extras"
| "consume ((s, c) # rest) audio lang extras =
     (if \<not> has_optional ((s, c) # rest) then consume_tail ((s, c) # rest) audio lang extras
      else
        (case c of
           ArgO (None, ostr, sep, e) \<Rightarrow> consume rest audio lang (extras @ [s])
         | ArgO (Some a, ostr, sep, e) \<Rightarrow>
            (case match_optional a ostr sep e False (next_positional rest) of
               Fail err \<Rightarrow> ErrorExit err
             | Help \<Rightarrow> HelpExit
             | Language v from_next \<Rightarrow>
                consume (if from_next then tl rest else rest) audio (Some v) extras)
         | _ \<Rightarrow>
            (case audio of
               None \<Rightarrow> consume rest (Some s) lang extras
             | Some a \<Rightarrow> consume rest audio lang (extras @ [s]))))"

definition parse_args :: "'m world \<Rightarrow> pystr list \<Rightarrow> parse_outcome" where
  "parse_args w args =
     (case classify_args w args of
        Inl e \<Rightarrow> ErrorExit e
      | Inr items \<Rightarrow> consume items None None [])"

fun join :: "pystr \<Rightarrow> pystr list \<Rightarrow> pystr" where
  "join sep [] = []"
| "join sep [x] = x"
| "join sep (x # y # others) = x @ sep @ join sep (y # others)"

definition error_text :: "'m world \<Rightarrow> argparse_error \<Rightarrow> pystr" where
  "error_text w e =
     (case e of
        AmbiguousOption s matches \<Rightarrow>
          ascii ''ambiguous option: '' @ s @ ascii '' could match '' @ join (ascii '', '') matches
      | UnexpectedOptionString s \<Rightarrow> ascii ''unexpected option string: '' @ s
      | ExpectedOneArgument \<Rightarrow> ascii ''argument -l/--language: expected one argument''
      | IgnoredExplicitArgument x \<Rightarrow>
          ascii ''argument -h/--help: ignored explicit argument '' @ py_repr w x
      | RequiredArguments \<Rightarrow> ascii ''the following arguments are required: audio_file''
      | UnrecognizedArguments xs \<Rightarrow> ascii ''unrecognized arguments: '' @ join [32] xs)"

definition format_usage :: "'m world \<Rightarrow> pystr \<Rightarrow> pystr" where
  "format_usage w prog = ascii ''usage: '' @ usage_line w prog @ [10]"

definition format_help :: "'m world \<Rightarrow> pystr \<Rightarrow> pystr" where
  "format_help w prog = ascii ''usage: '' @ usage_line w prog @ [10, 10] @ help_body w"

definition write_stderr :: "pystr \<Rightarrow> 'm proc \<Rightarrow> 'm proc" where
  "write_stderr s p = p\<lparr>stderr := stderr p @ s\<rparr>"

text \<open>
  \<^verbatim>\<open>_print_message\<close> on the standard output: \<^verbatim>\<open>AttributeError\<close> and \<^verbatim>\<open>OSError\<close>
  of the write are swallowed.
\<close>

definition print_message_stdout ::
  "'m world \<Rightarrow> pystr \<Rightarrow> 'm proc \<Rightarrow> (py_exception + unit) \<times> 'm proc" where
  "print_message_stdout w s p =
     (case stdout_fault w of
        None \<Rightarrow> (Inr (), p\<lparr>stdout := stdout p @ s\<rparr>)
      | Some e \<Rightarrow>
          if exc_class e = AttributeError \<or> exc_class e = OSError then (Inr (), p)
          else (Inl e, p))"

section \<open>The script\<close>

text \<open>
  The block under \<^verbatim>\<open>if __name__ == "__main__"\<close>, for \<^verbatim>\<open>sys.argv = argv\<close>. The imports at
  the top of the script are taken to succeed. The parser takes its program name from
  \<^verbatim>\<open>sys.argv[0]\<close> when it is built.
\<close>

definition main :: "'m world \<Rightarrow> pystr list \<Rightarrow> 'm proc \<Rightarrow> outcome \<times> 'm proc" where
  "main w argv p =
     (case argv of
        [] \<Rightarrow> (Uncaught (PyExc IndexError (ascii ''list index out of range'')), p)
      | argv0 # args \<Rightarrow>
         (let prog = basename w argv0 in
          if length argv = 1 then (SysExit 1, write_stderr (format_help w prog) p)
          else
            (case parse_args w args of
               HelpExit \<Rightarrow>
                 (case print_message_stdout w (format_help w prog) p of
                    (Inl e, p') \<Rightarrow> (Uncaught e, p')
                  | (Inr u, p') \<Rightarrow> (SysExit 0, p'))
             | ErrorExit err \<Rightarrow>
                 (SysExit 2,
                  write_stderr (prog @ ascii '': error: '' @ error_text w err @ [10])
                    (write_stderr (format_usage w prog) p))
             | Namespace audio_file language \<Rightarrow> transcribe_audio w audio_file language p)))"

text \<open>
  The interpreter ends the process: status 0 when the script runs to its end, the
  status of \<^verbatim>\<open>SystemExit\<close>, and status 1 after the traceback of an uncaught exception.
\<close>

definition interpreter_exit :: "'m world \<Rightarrow> outcome \<times> 'm proc \<Rightarrow> nat \<times> 'm proc" where
  "interpreter_exit w r =
     (case r of
        (Returned, p) \<Rightarrow> (0, p)
      | (SysExit n, p) \<Rightarrow> (n, p)
      | (Uncaught e, p) \<Rightarrow> (1, write_stderr (traceback_text w e) p))"

definition run :: "'m world \<Rightarrow> pystr list \<Rightarrow> nat \<times> 'm proc" where
  "run w argv = interpreter_exit w (main w argv proc0)"

section \<open>Reading JSON\<close>

text \<open>
  What it means for a text to be parseable JSON: a reader of the JSON grammar
  (RFC 8259) that returns the value read. Strings are decoded as \<^verbatim>\<open>json.loads\<close> does it,
  a surrogate pair of two \<^verbatim>\<open>\uXXXX\<close> escapes giving one character; numbers are kept as
  written.
\<close>

datatype json =
    JNull
  | JBool bool
  | JNumber pystr
  | JString pystr
  | JArray "json list"
  | JObject "(pystr \<times> json) list"

definition is_ws :: "nat \<Rightarrow> bool" where
  "is_ws c = (c = 32 \<or> c = 9 \<or> c = 10 \<or> c = 13)"

definition skip_ws :: "pystr \<Rightarrow> pystr" where
  "skip_ws s = dropWhile is_ws s"

definition hex_value :: "nat \<Rightarrow> nat option" where
  "hex_value c =
     (if 48 \<le> c \<and> c \<le> 57 then Some (c - 48)
      else if 97 \<le> c \<and> c \<le> 102 then Some (c - 87)
      else if 65 \<le> c \<and> c \<le> 70 then Some (c - 55)
      else None)"

definition decode_uXXXX :: "pystr \<Rightarrow> (nat \<times> pystr) option" where
  "decode_uXXXX s =
     (case s of
        a # b # c # d # rest \<Rightarrow>
          (case (hex_value a, hex_value b, hex_value c, hex_value d) of
             (Some x, Some y, Some z, Some t) \<Rightarrow> Some (((x * 16 + y) * 16 + z) * 16 + t, rest)
           | _ \<Rightarrow> None)
      | _ \<Rightarrow> None)"

definition unescape :: "nat \<Rightarrow> nat option" where
  "unescape e =
     (if e = 34 \<or> e = 92 \<or> e = 47 then Some e
      else if e = 98 then Some 8
      else if e = 102 then Some 12
      else if e = 110 then Some 10
      else if e = 114 then Some 13
      else if e = 116 then Some 9
      else None)"

definition prepend :: "nat \<Rightarrow> (pystr \<times> pystr) option \<Rightarrow> (pystr \<times> pystr) option" where
  "prepend c r = map_option (\<lambda>(x, rest). (c # x, rest)) r"

text \<open>
  The characters of a string after its opening quote: the decoded string and what
  follows the closing quote.
\<close>

function parse_string_chars :: "pystr \<Rightarrow> (pystr \<times> pystr) option" where
  "parse_string_chars [] = None"
| "parse_string_chars (c # cs) =
     (if c = 34 then Some ([], cs)
      else if c = 92 then
        (case cs of
           [] \<Rightarrow> None
         | e # cs' \<Rightarrow>
            if e = 117 then
              (case decode_uXXXX cs' of
                 None \<Rightarrow> None
               | Some (uni, r) \<Rightarrow>
                  if 0xd800 \<le> uni \<and> uni \<le> 0xdbff \<and> take 2 r = [92, 117] then
                    (case decode_uXXXX (drop 2 r) of
                       None \<Rightarrow> None
                     | Some (uni2, r2) \<Rightarrow>
                        if 0xdc00 \<le> uni2 \<and> uni2 \<le> 0xdfff
                        then prepend (0x10000 + (push_bit 10 (uni - 0xd800) OR (uni2 - 0xdc00)))
                               (parse_string_chars r2)
                        else prepend uni (parse_string_chars r))
                  else prepend uni (parse_string_chars r))
            else
              (case unescape e of
                 None \<Rightarrow> None
               | Some ch \<Rightarrow> prepend ch (parse_string_chars cs')))
      else if c < 32 then None
      else prepend c (parse_string_chars cs))"
  by pat_completeness auto
termination
proof (relation "measure length")
  have shorter: "length r < length s" if "decode_uXXXX s = Some (u, r)" for s u r
    using that by (auto simp: decode_uXXXX_def split: list.splits option.splits)
  show "wf (measure length)" by simp
  show "(r2, c # cs) \<in> measure length"
    if "cs = e # cs'" "decode_uXXXX cs' = Some x" "(uni, r) = x"
      "decode_uXXXX (drop 2 r) = Some y" "(uni2, r2) = y"
    for c cs e cs' x uni r y uni2 r2
  proof -
    have "length r < length cs'" "length r2 < length (drop 2 r)"
      using that shorter [of cs' uni r] shorter [of "drop 2 r" uni2 r2] by auto
    then show ?thesis using that(1) by simp
  qed
  have plain: "(r, c # cs) \<in> measure length"
    if "cs = e # cs'" "decode_uXXXX cs' = Some x" "(uni, r) = x"
    for c cs e cs' x uni r
  proof -
    have "length r < length cs'"
      using that shorter [of cs' uni r] by auto
    then show ?thesis using that(1) by simp
  qed
  show "(r, c # cs) \<in> measure length"
    if "cs = e # cs'" "decode_uXXXX cs' = Some x" "(uni, r) = x"
    for c :: nat and cs e cs' x uni r
    using that by (rule plain)
  show "(r, c # cs) \<in> measure length"
    if "cs = e # cs'" "decode_uXXXX cs' = Some x" "(uni, r) = x"
    for c :: nat and cs e cs' x uni r
    using that by (rule plain)
qed auto

declare parse_string_chars.simps [simp del]

definition is_digit :: "nat \<Rightarrow> bool" where
  "is_digit c = (48 \<le> c \<and> c \<le> 57)"

text \<open>
  A number, \<^verbatim>\<open>-?(0|[1-9][0-9]*)(\.[0-9]+)?([eE][-+]?[0-9]+)?\<close>: its text and what follows.
\<close>

definition number_int :: "pystr \<Rightarrow> (pystr \<times> pystr) option" where
  "number_int s =
     (case s of
        [] \<Rightarrow> None
      | d # r \<Rightarrow>
          if d = 48 then Some ([48], r)
          else if is_digit d then Some (d # takeWhile is_digit r, dropWhile is_digit r)
          else None)"

definition number_frac :: "pystr \<Rightarrow> pystr \<times> pystr" where
  "number_frac s =
     (case s of
        [] \<Rightarrow> ([], s)
      | d # r \<Rightarrow>
          if d = 46 \<and> takeWhile is_digit r \<noteq> []
          then (d # takeWhile is_digit r, dropWhile is_digit r)
          else ([], s))"

definition number_exp :: "pystr \<Rightarrow> pystr \<times> pystr" where
  "number_exp s =
     (case s of
        [] \<Rightarrow> ([], s)
      | e # r \<Rightarrow>
          if e = 101 \<or> e = 69 then
            (let sign = (case r of [] \<Rightarrow> [] | g # r' \<Rightarrow> if g = 45 \<or> g = 43 then [g] else []);
                 r1 = drop (length sign) r
             in if takeWhile is_digit r1 \<noteq> []
                then (e # sign @ takeWhile is_digit r1, dropWhile is_digit r1)
                else ([], s))
          else ([], s))"

definition parse_number :: "pystr \<Rightarrow> (pystr \<times> pystr) option" where
  "parse_number s =
     (let sign = (case s of [] \<Rightarrow> [] | g # r \<Rightarrow> if g = 45 then [g] else [])
      in case number_int (drop (length sign) s) of
           None \<Rightarrow> None
         | Some (i, r1) \<Rightarrow>
            (case number_frac r1 of
               (f, r2) \<Rightarrow>
                 (case number_exp r2 of
                    (x, r3) \<Rightarrow> Some (sign @ i @ f @ x, r3))))"

text \<open>
  A value, the elements of an array after its bracket, the members of an object after
  its brace. The first argument bounds the depth of the recursion; the length of the
  text is enough, since every call comes after at least one character was read.
\<close>

fun parse_value :: "nat \<Rightarrow> pystr \<Rightarrow> (json \<times> pystr) option"
  and parse_elements :: "nat \<Rightarrow> pystr \<Rightarrow> (json list \<times> pystr) option"
  and parse_members :: "nat \<Rightarrow> pystr \<Rightarrow> ((pystr \<times> json) list \<times> pystr) option" where
  "parse_value 0 s = None"
| "parse_value (Suc n) s =
     (case s of
        [] \<Rightarrow> None
      | c # cs \<Rightarrow>
          if c = 34 then map_option (\<lambda>(x, r). (JString x, r)) (parse_string_chars cs)
          else if c = 123 then
            (case skip_ws cs of
               [] \<Rightarrow> None
             | d # r \<Rightarrow>
                if d = 125 then Some (JObject [], r)
                else map_option (\<lambda>(ms, r'). (JObject ms, r')) (parse_members n (d # r)))
          else if c = 91 then
            (case skip_ws cs of
               [] \<Rightarrow> None
             | d # r \<Rightarrow>
                if d = 93 then Some (JArray [], r)
                else map_option (\<lambda>(vs, r'). (JArray vs, r')) (parse_elements n (d # r)))
          else if take 4 s = ascii ''null'' then Some (JNull, drop 4 s)
          else if take 4 s = ascii ''true'' then Some (JBool True, drop 4 s)
          else if take 5 s = ascii ''false'' then Some (JBool False, drop 5 s)
          else map_option (\<lambda>(x, r). (JNumber x, r)) (parse_number s))"
| "parse_elements 0 s = None"
| "parse_elements (Suc n) s =
     (case parse_value n s of
        None \<Rightarrow> None
      | Some (v, r) \<Rightarrow>
         (case skip_ws r of
            [] \<Rightarrow> None
          | d # r' \<Rightarrow>
             if d = 93 then Some ([v], r')
             else if d = 44
             then map_option (\<lambda>(vs, r''). (v # vs, r'')) (parse_elements n (skip_ws r'))
             else None))"
| "parse_members 0 s = None"
| "parse_members (Suc n) s =
     (case s of
        [] \<Rightarrow> None
      | q # cs \<Rightarrow>
          if q \<noteq> 34 then None
          else
            (case parse_string_chars cs of
               None \<Rightarrow> None
             | Some (k, r) \<Rightarrow>
                (case skip_ws r of
                   [] \<Rightarrow> None
                 | col # r1 \<Rightarrow>
                    if col \<noteq> 58 then None
                    else
                      (case parse_value n (skip_ws r1) of
                         None \<Rightarrow> None
                       | Some (v, r2) \<Rightarrow>
                          (case skip_ws r2 of
                             [] \<Rightarrow> None
                           | d # r3 \<Rightarrow>
                              if d = 125 then Some ([(k, v)], r3)
                              else if d = 44
                              then map_option (\<lambda>(ms, r4). ((k, v) # ms, r4))
                                     (parse_members n (skip_ws r3))
                              else None)))))"

text \<open>The whole text is one JSON value, with white space allowed around it.\<close>

definition json_loads :: "pystr \<Rightarrow> json option" where
  "json_loads s =
     (case parse_value (Suc (length s)) (skip_ws s) of
        None \<Rightarrow> None
      | Some (v, r) \<Rightarrow> if skip_ws r = [] then Some v else None)"


section \<open>Vocabulary of the properties\<close>

subsection \<open>What a reader gets from an encoded string\<close>

text \<open>
  \<^verbatim>\<open>json.dumps\<close> writes a character from \<^verbatim>\<open>0x10000\<close> on as a surrogate pair, and a
  reader joins a high surrogate followed by a low one into one character. So the string
  read back is the original one with every such pair of neighbours joined; it is the
  original string when that has no surrogate in it.
\<close>

definition is_high :: "nat \<Rightarrow> bool" where
  "is_high u = (0xd800 \<le> u \<and> u \<le> 0xdbff)"

definition is_low :: "nat \<Rightarrow> bool" where
  "is_low u = (0xdc00 \<le> u \<and> u \<le> 0xdfff)"

definition code_units :: "pystr \<Rightarrow> pystr" where
  "code_units s =
     concat (map (\<lambda>c. if c < 0x10000 then [c]
                        else [0xd800 + (c - 0x10000) div 1024 mod 1024,
                              0xdc00 + (c - 0x10000) mod 1024]) s)"

fun merge_surrogates :: "pystr \<Rightarrow> pystr" where
  "merge_surrogates [] = []"
| "merge_surrogates [u] = [u]"
| "merge_surrogates (u # v # r) =
     (if is_high u \<and> is_low v
      then (0x10000 + ((u - 0xd800) * 1024 + (v - 0xdc00))) # merge_surrogates r
      else u # merge_surrogates (v # r))"

definition json_decoded :: "pystr \<Rightarrow> pystr" where
  "json_decoded s = merge_surrogates (code_units s)"

text \<open>The JSON value that the text written for a Python value stands for.\<close>

fun json_of :: "pyval \<Rightarrow> json" where
  "json_of (PStr s) = JString (json_decoded s)"
| "json_of (PDict kvs) = JObject (map (\<lambda>(k, v). (json_decoded k, json_of v)) kvs)"
| "json_of (PObject cls) = JNull"

text \<open>The characters written as \<^verbatim>\<open>\uXXXX\<close>, when they are below \<^verbatim>\<open>0x10000\<close>.\<close>

definition uform :: "nat \<Rightarrow> bool" where
  "uform v = (v \<noteq> 92 \<and> v \<noteq> 34 \<and> \<not> (32 \<le> v \<and> v \<le> 126) \<and>
              v \<noteq> 8 \<and> v \<noteq> 12 \<and> v \<noteq> 10 \<and> v \<noteq> 13 \<and> v \<noteq> 9)"

text \<open>A string of Unicode scalar values: code points that are not surrogates.\<close>

definition scalar_values :: "pystr \<Rightarrow> bool" where
  "scalar_values s = (\<forall>c \<in> set s. c < 0xd800 \<or> (0xe000 \<le> c \<and> c < 0x110000))"

subsection \<open>The lines the script prints\<close>

text \<open>
  The line printed for \<^verbatim>\<open>{"transcription": text}\<close> and for \<^verbatim>\<open>{"error": msg}\<close>: the
  object with its one key, and the newline of \<^verbatim>\<open>print\<close>.
\<close>

definition success_line :: "pystr \<Rightarrow> pystr" where
  "success_line text =
     [123] @ encode_basestring_ascii (ascii ''transcription'') @ [58, 32] @
     encode_basestring_ascii text @ [125, 10]"

definition error_line :: "pystr \<Rightarrow> pystr" where
  "error_line msg =
     [123] @ encode_basestring_ascii (ascii ''error'') @ [58, 32] @
     encode_basestring_ascii msg @ [125, 10]"

subsection \<open>Calls into the model\<close>

definition is_model_call :: "'m call \<Rightarrow> bool" where
  "is_model_call c = (case c of PathExists p \<Rightarrow> False | _ \<Rightarrow> True)"

text \<open>
  The calls of the \<^verbatim>\<open>try\<close> statement: the model is loaded, and it is asked to
  transcribe when loading gave a model.
\<close>

definition model_calls :: "'m world \<Rightarrow> pystr \<Rightarrow> pystr option \<Rightarrow> 'm call list" where
  "model_calls w file_path language =
     LoadModel MODEL_SIZE #
     (case load_model w MODEL_SIZE of
        Inl e \<Rightarrow> []
      | Inr m \<Rightarrow> [Transcribe m file_path USE_FP16 language])"


text \<open>
  Printing the help text on the standard output ends well: the write raises nothing,
  or an exception that \<^verbatim>\<open>_print_message\<close> swallows.
\<close>

definition help_printed :: "'m world \<Rightarrow> bool" where
  "help_printed w =
     (case stdout_fault w of
        None \<Rightarrow> True
      | Some e \<Rightarrow> exc_class e = AttributeError \<or> exc_class e = OSError)"

subsection \<open>A concrete world\<close>

text \<open>
  A world to run the script in: three files exist, the model loads, it transcribes
  \<^verbatim>\<open>audio.wav\<close>, returns a result without \<^verbatim>\<open>text\<close> for \<^verbatim>\<open>silent.wav\<close>, and raises
  for everything else.
\<close>

definition demo_world :: "nat world" where
  "demo_world =
     \<lparr>path_exists =
        (\<lambda>p. p = ascii ''audio.wav'' \<or> p = ascii ''notes.txt'' \<or> p = ascii ''silent.wav''),
      load_model = (\<lambda>name. Inr 0),
      model_transcribe = (\<lambda>m p fp16 lang.
         if p = ascii ''audio.wav''
         then Inr (PDict [(ascii ''text'', PStr (ascii '' hola'')),
                          (ascii ''language'', PStr (ascii ''es''))])
         else if p = ascii ''silent.wav''
         then Inr (PDict [(ascii ''language'', PStr (ascii ''en''))])
         else Inl (PyExc (OtherException (ascii ''RuntimeError''))
                     (ascii ''Failed to load audio''))),
      stdout_fault = None,
      py_repr = (\<lambda>s. [39] @ s @ [39]),
      is_decimal = (\<lambda>c. 48 \<le> c \<and> c \<le> 57),
      basename = (\<lambda>s. rev (takeWhile (\<lambda>c. c \<noteq> 47) (rev s))),
      usage_line = (\<lambda>prog. prog @ ascii '' [-h] [-l LANGUAGE] audio_file''),
      help_body = ascii ''Transcribe un archivo de audio utilizando OpenAI Whisper.'',
      traceback_text = (\<lambda>e. ascii ''Traceback (most recent call last):'')\<rparr>"

section \<open>Four hexadecimal digits\<close>

text \<open>\<^verbatim>\<open>'{0:04x}'.format\<close> gives four digits below \<^verbatim>\<open>0x10000\<close>, and the reader gets the number back.\<close>

lemma replicate_small:
  "replicate 3 x = [x, x, x]" "replicate 2 x = [x, x]" "replicate 1 x = [x]"
  by (simp_all add: numeral_3_eq_3 numeral_2_eq_2)

lemma hex_digits_small: "n < 16 \<Longrightarrow> hex_digits n = [hex_digit n]"
  by (subst hex_digits.simps) simp

lemma hex_digits_big: "16 \<le> n \<Longrightarrow> hex_digits n = hex_digits (n div 16) @ [hex_digit (n mod 16)]"
  by (subst hex_digits.simps) simp

lemma format_04x_four:
  assumes "n < 65536"
  shows "format_04x n =
    [hex_digit (n div 4096), hex_digit (n div 256 mod 16), hex_digit (n div 16 mod 16), hex_digit (n mod 16)]"
proof -
  define a where "a = n div 16"
  define b where "b = a div 16"
  define c where "c = b div 16"
  have c16: "c < 16" using assms unfolding a_def b_def c_def by simp
  have e1: "n div 256 = b" "n div 4096 = c"
    unfolding a_def b_def c_def by (simp_all add: div_mult2_eq)
  have e2: "n div 16 = a" by (simp add: a_def)
  have m: "n div 256 mod 16 = b mod 16" "n div 16 mod 16 = a mod 16" by (simp_all add: e1 e2)
  consider "n < 16" | "16 \<le> n" "a < 16" | "16 \<le> n" "16 \<le> a" "b < 16" | "16 \<le> n" "16 \<le> a" "16 \<le> b"
    by linarith
  then show ?thesis
  proof cases
    case 1
    then have "a = 0" "b = 0" "c = 0" unfolding a_def b_def c_def by simp_all
    with 1 show ?thesis
      unfolding e1 m format_04x_def hex_digits_small [OF 1]
      by (simp add: hex_digit_def replicate_small)
  next
    case 2
    then have z: "b = 0" "c = 0" unfolding b_def c_def by simp_all
    have h: "hex_digits n = [hex_digit a, hex_digit (n mod 16)]"
      using hex_digits_big [OF 2(1)] hex_digits_small [OF 2(2)] by (simp add: a_def)
    show ?thesis
      unfolding e1 m format_04x_def h using 2 z by (simp add: hex_digit_def replicate_small)
  next
    case 3
    then have z: "c = 0" unfolding c_def by simp
    have h: "hex_digits n = [hex_digit b, hex_digit (a mod 16), hex_digit (n mod 16)]"
      using hex_digits_big [OF 3(1)] hex_digits_big [OF 3(2)] hex_digits_small [OF 3(3)]
      by (simp add: a_def b_def)
    show ?thesis
      unfolding e1 m format_04x_def h using 3 z by (simp add: hex_digit_def replicate_small)
  next
    case 4
    have h: "hex_digits n = [hex_digit c, hex_digit (b mod 16), hex_digit (a mod 16), hex_digit (n mod 16)]"
      using hex_digits_big [OF 4(1)] hex_digits_big [OF 4(2)] hex_digits_big [OF 4(3)]
        hex_digits_small [OF c16]
      by (simp add: a_def b_def c_def)
    show ?thesis
      unfolding e1 m format_04x_def h by simp
  qed
qed

lemma hex_value_digit: "d < 16 \<Longrightarrow> hex_value (hex_digit d) = Some d"
  by (simp add: hex_value_def hex_digit_def)

lemma recombine:
  assumes "n < 65536"
  shows "((n div 4096 * 16 + n div 256 mod 16) * 16 + n div 16 mod 16) * 16 + n mod 16 = (n::nat)"
proof -
  define a where "a = n div 16"
  define b where "b = a div 16"
  define c where "c = b div 16"
  have e1: "n div 256 = b" "n div 4096 = c" "n div 16 = a"
    unfolding a_def b_def c_def by (simp_all add: div_mult2_eq)
  have c16: "c < 16" using assms unfolding a_def b_def c_def by simp
  have "b = c * 16 + b mod 16" unfolding c_def by simp
  moreover have "a = b * 16 + a mod 16" unfolding b_def by simp
  moreover have "n = a * 16 + n mod 16" unfolding a_def by simp
  ultimately show ?thesis unfolding e1 using c16 by simp
qed

lemma decode_format_04x:
  assumes "n < 65536"
  shows "decode_uXXXX (format_04x n @ r) = Some (n, r)"
proof -
  have d: "n div 4096 < 16" using assms by simp
  show ?thesis
    unfolding format_04x_four [OF assms] decode_uXXXX_def
    using d recombine [OF assms] by (simp add: hex_value_digit)
qed

section \<open>Surrogate pairs\<close>

text \<open>The bit operations of the encoder and of the reader, as arithmetic.\<close>

lemma push_take_disjoint: "push_bit n a AND take_bit n b = (0::nat)"
  by (rule bit_eqI) (auto simp add: bit_simps)

lemma or_low10:
  assumes "x < 1024"
  shows "(a * 1024) OR x = a * 1024 + (x::nat)"
proof -
  have "a * 1024 = push_bit 10 a" by (simp add: push_bit_eq_mult)
  moreover have "x = take_bit 10 x" using assms by (simp add: take_bit_nat_eq_self)
  ultimately have "(a * 1024) AND x = 0" using push_take_disjoint [of 10 a x] by simp
  then show ?thesis by (simp add: disjunctive_add_eq_or)
qed

lemma and_1023: "(x::nat) AND 1023 = x mod 1024"
proof -
  have m: "mask 10 = (1023::nat)" by (simp add: mask_eq_exp_minus_1)
  have "x AND mask 10 = take_bit 10 x" by (simp add: take_bit_eq_mask)
  also have "\<dots> = x mod 1024" by (simp add: take_bit_eq_mod)
  finally show ?thesis unfolding m .
qed

lemma surrogate_units:
  "55296 OR (drop_bit 10 (n::nat) AND 1023) = 55296 + n div 1024 mod 1024"
  "56320 OR ((n::nat) AND 1023) = 56320 + n mod 1024"
proof -
  have "(55296::nat) = 54 * 1024" "(56320::nat) = 55 * 1024" by simp_all
  then show "55296 OR (drop_bit 10 n AND 1023) = 55296 + n div 1024 mod 1024"
    "56320 OR (n AND 1023) = 56320 + n mod 1024"
    using or_low10 [of "n div 1024 mod 1024" 54] or_low10 [of "n mod 1024" 55]
    by (simp_all add: and_1023 drop_bit_eq_div)
qed

section \<open>Reading an escaped character\<close>

lemma escape_uform: "uform v \<Longrightarrow> v < 65536 \<Longrightarrow> escape_char v = [92, 117] @ format_04x v"
  unfolding uform_def escape_char_def by simp

lemma surrogate_uform: "is_high v \<or> is_low v \<Longrightarrow> uform v \<and> v < 65536"
  unfolding is_high_def is_low_def uform_def by auto

lemma escape_plain:
  assumes "\<not> uform v"
  shows "escape_char v = [v] \<and> v \<noteq> 92 \<and> v \<noteq> 34 \<and> 32 \<le> v \<or>
         (\<exists>e. escape_char v = [92, e] \<and> e \<noteq> 117 \<and> unescape e = Some v)"
proof -
  consider "v = 92" | "v = 34" | "v \<noteq> 92" "v \<noteq> 34" "32 \<le> v" "v \<le> 126"
    | "v = 8" | "v = 12" | "v = 10" | "v = 13" | "v = 9"
    using assms unfolding uform_def by blast
  then show ?thesis
  proof cases
    case 3
    then show ?thesis unfolding escape_char_def by simp
  qed (simp_all add: escape_char_def unescape_def)
qed

lemma parse_plain:
  assumes "\<not> uform v"
  shows "parse_string_chars (escape_char v @ t) = prepend v (parse_string_chars t)"
proof -
  from escape_plain [OF assms] show ?thesis
  proof (elim disjE conjE exE)
    assume "escape_char v = [v]" "v \<noteq> 92" "v \<noteq> 34" "32 \<le> v"
    then show ?thesis
      by (simp add: parse_string_chars.simps(2) [of v t])
  next
    fix e
    assume "escape_char v = [92, e]" "e \<noteq> 117" "unescape e = Some v"
    then show ?thesis
      by (simp add: parse_string_chars.simps(2) [of 92 "e # t"])
  qed
qed

lemma plain_take2:
  assumes "\<not> uform v"
  shows "take 2 (escape_char v @ x # t) \<noteq> [92, 117]"
  using escape_plain [OF assms] by auto

lemma parse_uform:
  assumes "uform v" "v < 65536"
  shows "parse_string_chars (escape_char v @ t) =
     (if is_high v \<and> take 2 t = [92, 117] then
        (case decode_uXXXX (drop 2 t) of
           None \<Rightarrow> None
         | Some (uni2, r2) \<Rightarrow>
            if is_low uni2
            then prepend (0x10000 + (push_bit 10 (v - 0xd800) OR (uni2 - 0xdc00)))
                   (parse_string_chars r2)
            else prepend v (parse_string_chars t))
      else prepend v (parse_string_chars t))"
  unfolding escape_uform [OF assms]
  by (simp add: parse_string_chars.simps(2) [of 92 "117 # format_04x v @ t"]
      decode_format_04x [OF assms(2)] is_high_def is_low_def split: option.split)

section \<open>The encoder works on UTF-16 code units\<close>

lemma code_units_Nil: "code_units [] = []"
  by (simp add: code_units_def)

lemma code_units_Cons:
  "code_units (c # s) =
     (if c < 65536 then [c]
      else [55296 + (c - 65536) div 1024 mod 1024, 56320 + (c - 65536) mod 1024]) @ code_units s"
  by (simp add: code_units_def)

lemma code_units_bound: "u \<in> set (code_units s) \<Longrightarrow> u < 65536"
proof (induction s)
  case Nil
  then show ?case by (simp add: code_units_Nil)
next
  case (Cons c s)
  have "(c - 65536) div 1024 mod 1024 < 1024" "(c - 65536) mod 1024 < 1024" by simp_all
  then have "55296 + (c - 65536) div 1024 mod 1024 < 65536" "56320 + (c - 65536) mod 1024 < 65536"
    by linarith+
  with Cons show ?case
    unfolding code_units_Cons by (cases "c < 65536") auto
qed

lemma escape_astral:
  assumes "65536 \<le> c"
  shows "escape_char c =
    escape_char (55296 + (c - 65536) div 1024 mod 1024) @ escape_char (56320 + (c - 65536) mod 1024)"
proof -
  let ?h = "55296 + (c - 65536) div 1024 mod 1024"
  let ?l = "56320 + (c - 65536) mod 1024"
  have "is_high ?h" "is_low ?l" by (simp_all add: is_high_def is_low_def)
  then have "escape_char ?h = [92, 117] @ format_04x ?h" "escape_char ?l = [92, 117] @ format_04x ?l"
    using surrogate_uform escape_uform by blast+
  moreover have "escape_char c = [92, 117] @ format_04x ?h @ [92, 117] @ format_04x ?l"
    using assms unfolding escape_char_def by (simp add: surrogate_units Let_def)
  ultimately show ?thesis by simp
qed

lemma escape_code_units:
  "concat (map escape_char s) = concat (map escape_char (code_units s))"
proof (induction s)
  case Nil
  show ?case by (simp add: code_units_Nil)
next
  case (Cons c s)
  show ?case
  proof (cases "c < 65536")
    case True
    then show ?thesis using Cons by (simp add: code_units_Cons)
  next
    case False
    then have "65536 \<le> c" by simp
    from escape_astral [OF this] show ?thesis using Cons False by (simp add: code_units_Cons)
  qed
qed

section \<open>Reading an encoded string\<close>

lemma plain_take2':
  assumes "\<not> uform v" "t \<noteq> []"
  shows "take 2 (escape_char v @ t) \<noteq> [92, 117]"
proof -
  obtain x t' where "t = x # t'" using assms(2) by (cases t) auto
  then show ?thesis using plain_take2 [OF assms(1)] by simp
qed

lemma prepend_Some: "prepend v (Some (x, r)) = Some (v # x, r)"
  by (simp add: prepend_def)

lemma parse_quote: "parse_string_chars (34 # rest) = Some ([], rest)"
  by (simp add: parse_string_chars.simps(2) [of 34 rest])

lemma combine_surrogates:
  assumes "is_high u" "is_low v"
  shows "push_bit 10 (u - 55296) OR (v - 56320) = (u - 55296) * 1024 + (v - 56320)"
proof -
  have "v - 56320 < 1024" using assms(2) unfolding is_low_def by arith
  from or_low10 [OF this, of "u - 55296"] show ?thesis by (simp add: push_bit_eq_mult)
qed

lemma parse_single:
  assumes "u < 65536" "\<not> (is_high u \<and> take 2 t = [92, 117])"
  shows "parse_string_chars (escape_char u @ t) = prepend u (parse_string_chars t)"
proof (cases "uform u")
  case True
  from parse_uform [OF True assms(1), of t] assms(2) show ?thesis by simp
next
  case False
  then show ?thesis by (rule parse_plain)
qed

lemma parse_step_nomerge:
  assumes "u < 65536" "v < 65536" "\<not> (is_high u \<and> is_low v)" "t' \<noteq> []"
  shows "parse_string_chars (escape_char u @ escape_char v @ t') =
         prepend u (parse_string_chars (escape_char v @ t'))"
proof (cases "is_high u \<and> take 2 (escape_char v @ t') = [92, 117]")
  case True
  then have hu: "is_high u" and tk: "take 2 (escape_char v @ t') = [92, 117]" by simp_all
  have uu: "uform u" using hu surrogate_uform by blast
  have uv: "uform v" using tk plain_take2' [OF _ assms(4), of v] by blast
  have nl: "\<not> is_low v" using hu assms(3) by simp
  have ev: "escape_char v @ t' = [92, 117] @ format_04x v @ t'"
    using escape_uform [OF uv assms(2)] by simp
  show ?thesis
    unfolding parse_uform [OF uu assms(1)] ev
    using hu nl decode_format_04x [OF assms(2), of t'] by simp
next
  case False
  from parse_single [OF assms(1) False] show ?thesis .
qed

lemma parse_units:
  assumes "\<forall>u \<in> set us. u < 65536"
  shows "parse_string_chars (concat (map escape_char us) @ 34 # rest) =
         Some (merge_surrogates us, rest)"
  using assms
proof (induction us rule: merge_surrogates.induct)
  case (3 u v r)
  let ?t' = "concat (map escape_char r) @ 34 # rest"
  let ?t = "escape_char v @ ?t'"
  have bu: "u < 65536" and bv: "v < 65536" and br: "\<forall>x \<in> set r. x < 65536"
    using "3.prems" by simp_all
  have t: "concat (map escape_char (u # v # r)) @ 34 # rest = escape_char u @ ?t" by simp
  show ?case
  proof (cases "is_high u \<and> is_low v")
    case True
    then have hu: "is_high u" and lv: "is_low v" by simp_all
    have uu: "uform u" and uv: "uform v" using hu lv surrogate_uform by blast+
    have ev: "?t = [92, 117] @ format_04x v @ ?t'"
      using escape_uform [OF uv bv] by simp
    have "parse_string_chars (escape_char u @ ?t) =
        prepend (65536 + (push_bit 10 (u - 55296) OR (v - 56320))) (parse_string_chars ?t')"
      unfolding parse_uform [OF uu bu] ev
      using hu lv decode_format_04x [OF bv, of ?t'] by simp
    also have "\<dots> = Some ((65536 + ((u - 55296) * 1024 + (v - 56320))) # merge_surrogates r, rest)"
      using "3.IH"(1) [OF True] br combine_surrogates [OF hu lv] by (simp add: prepend_Some)
    finally show ?thesis unfolding t using True by simp
  next
    case False
    have "?t' \<noteq> []" by simp
    from parse_step_nomerge [OF bu bv False this]
    have "parse_string_chars (escape_char u @ ?t) = prepend u (parse_string_chars ?t)" .
    also have "\<dots> = Some (u # merge_surrogates (v # r), rest)"
      using "3.IH"(2) [OF False] bv br by (simp add: prepend_Some)
    finally show ?thesis unfolding t using False by auto
  qed
next
  case 1
  show ?case by (simp add: parse_quote)
next
  case (2 v)
  then have bv: "v < 65536" by simp
  have "\<not> (is_high v \<and> take 2 (34 # rest) = [92, 117])" by simp
  from parse_single [OF bv this] show ?case by (simp add: parse_quote prepend_Some)
qed

text \<open>A string without lone surrogates is read back unchanged.\<close>

lemma merge_not_high: "\<not> is_high u \<Longrightarrow> merge_surrogates (u # r) = u # merge_surrogates r"
  by (cases r) simp_all

lemma merge_code_units:
  assumes "scalar_values s"
  shows "merge_surrogates (code_units s) = s"
  using assms
proof (induction s)
  case Nil
  show ?case by (simp add: code_units_Nil)
next
  case (Cons c s)
  then have IH: "merge_surrogates (code_units s) = s"
    and sc: "c < 55296 \<or> (57344 \<le> c \<and> c < 1114112)"
    by (simp_all add: scalar_values_def)
  show ?case
  proof (cases "c < 65536")
    case True
    then have "\<not> is_high c" using sc by (auto simp: is_high_def)
    then show ?thesis using True IH by (simp add: code_units_Cons merge_not_high)
  next
    case False
    define n where "n = c - 65536"
    have n: "n < 1048576" "c = 65536 + n" using False sc by (simp_all add: n_def)
    have d: "n div 1024 < 1024" using n(1) by simp
    have hl: "is_high (55296 + n div 1024 mod 1024)" "is_low (56320 + n mod 1024)"
      by (simp_all add: is_high_def is_low_def)
    have "n div 1024 mod 1024 * 1024 + n mod 1024 = n" using d by simp
    then show ?thesis
      using False IH hl unfolding code_units_Cons n_def [symmetric] by (simp add: n(2))
  qed
qed

section \<open>Reading what \<^verbatim>\<open>json.dumps\<close> wrote\<close>

lemma skip_ws_simps:
  "skip_ws [] = []"
  "is_ws c \<Longrightarrow> skip_ws (c # s) = skip_ws s"
  "\<not> is_ws c \<Longrightarrow> skip_ws (c # s) = c # s"
  by (simp_all add: skip_ws_def)

lemma is_ws_simps:
  "is_ws 32" "is_ws 10" "\<not> is_ws 34" "\<not> is_ws 123" "\<not> is_ws 125" "\<not> is_ws 58"
  by (simp_all add: is_ws_def)

lemma parse_encoded_chars:
  "parse_string_chars (concat (map escape_char s) @ 34 # R) = Some (json_decoded s, R)"
  using parse_units [of "code_units s" R] code_units_bound [of _ s]
  by (auto simp: escape_code_units [of s] json_decoded_def)

lemma parse_value_string:
  "parse_value (Suc n) (encode_basestring_ascii s @ R) = Some (JString (json_decoded s), R)"
  by (simp add: encode_basestring_ascii_def parse_encoded_chars)

lemma parse_value_open:
  "parse_value (Suc n) (123 # 34 # cs) =
     map_option (\<lambda>(ms, r'). (JObject ms, r')) (parse_members n (34 # cs))"
  by (simp add: skip_ws_simps is_ws_simps del: parse_members.simps)

lemma parse_value_empty: "parse_value (Suc n) (123 # 125 # R) = Some (JObject [], R)"
  by (simp add: skip_ws_simps is_ws_simps)

lemma parse_members_step:
  assumes "parse_value n (sv @ tail) = Some (jv, tail)" "sv \<noteq> []" "\<not> is_ws (hd sv)"
  shows "parse_members (Suc n) (encode_basestring_ascii k @ [58, 32] @ sv @ tail) =
     (case skip_ws tail of
        [] \<Rightarrow> None
      | d # r3 \<Rightarrow>
         if d = 125 then Some ([(json_decoded k, jv)], r3)
         else if d = 44
         then map_option (\<lambda>(ms, r4). ((json_decoded k, jv) # ms, r4)) (parse_members n (skip_ws r3))
         else None)"
proof -
  obtain c cs where sv: "sv = c # cs" using assms(2) by (cases sv) auto
  then have ws: "skip_ws (sv @ tail) = sv @ tail" using assms(3) by (simp add: skip_ws_simps)
  show ?thesis
    using assms(1) ws
    by (subst parse_members.simps(2))
      (simp add: encode_basestring_ascii_def parse_encoded_chars skip_ws_simps is_ws_simps
        del: parse_value.simps parse_members.simps)
qed

lemma encode_nonempty: "encode_basestring_ascii k = 34 # concat (map escape_char k) @ [34]"
  by (simp add: encode_basestring_ascii_def)

lemma dumps_parses:
  "json_dumps v = Inr s \<Longrightarrow> length s \<le> n \<Longrightarrow>
     parse_value (Suc n) (s @ R) = Some (json_of v, R) \<and> s \<noteq> [] \<and> \<not> is_ws (hd s)"
  "kvs \<noteq> [] \<Longrightarrow> json_items kvs = Inr body \<Longrightarrow> length body \<le> m \<Longrightarrow>
     parse_members (Suc m) (body @ 125 # R) =
       Some (map (\<lambda>(k, v). (json_decoded k, json_of v)) kvs, R) \<and> body \<noteq> [] \<and> hd body = 34"
proof (induction v and kvs arbitrary: s n R and body m R rule: json_dumps_json_items.induct)
  case (1 t)
  then show ?case
    using parse_value_string [of n t R] by (auto simp: encode_nonempty is_ws_simps)
next
  case (2 cls)
  then show ?case by simp
next
  case (3 kvs)
  from "3.prems"(1) obtain body where body: "json_items kvs = Inr body" and s: "s = 123 # body @ [125]"
    by (auto split: sum.splits)
  show ?case
  proof (cases "kvs = []")
    case True
    then have "body = []" using body by simp
    then show ?thesis using True s by (simp add: skip_ws_simps is_ws_simps)
  next
    case False
    obtain n' where n': "n = Suc n'" "length body \<le> n'" using "3.prems"(2) s by (cases n) auto
    from "3.IH" [OF False body n'(2), of R]
    have mem: "parse_members (Suc n') (body @ 125 # R) =
        Some (map (\<lambda>(k, v). (json_decoded k, json_of v)) kvs, R)"
      and b: "body \<noteq> []" "hd body = 34" by simp_all
    obtain cs where cs: "body = 34 # cs" using b by (cases body) auto
    show ?thesis
      using mem unfolding s n'(1) cs
      by (simp add: parse_value_open is_ws_simps del: parse_value.simps parse_members.simps)
  qed
next
  case 4
  then show ?case by simp
next
  case (5 k v kvs)
  from "5.prems"(2) obtain sv where sv: "json_dumps v = Inr sv"
    by (auto split: sum.splits)
  with "5.prems"(2) obtain others where others: "json_items kvs = Inr others"
    and body: "body = encode_basestring_ascii k @ [58, 32] @ sv @ (if kvs = [] then [] else [44, 32] @ others)"
    by (auto split: sum.splits)
  let ?tail = "(if kvs = [] then [] else [44, 32] @ others) @ 125 # R"
  have "Suc (length sv) \<le> m" "kvs \<noteq> [] \<Longrightarrow> Suc (length others) \<le> m"
    using "5.prems"(3) by (simp_all add: body encode_nonempty)
  then obtain m' where m': "m = Suc m'" "length sv \<le> m'" "kvs \<noteq> [] \<Longrightarrow> length others \<le> m'"
    by (cases m) auto
  from "5.IH"(1) [OF sv m'(2), of ?tail]
  have val: "parse_value (Suc m') (sv @ ?tail) = Some (json_of v, ?tail)"
    and nv: "sv \<noteq> []" "\<not> is_ws (hd sv)" by simp_all
  have b: "body @ 125 # R = encode_basestring_ascii k @ [58, 32] @ sv @ ?tail"
    by (simp add: body)
  have hd: "body \<noteq> [] \<and> hd body = 34" by (simp add: body encode_nonempty)
  show ?case
  proof (cases "kvs = []")
    case True
    then show ?thesis
      using hd unfolding b m'(1) parse_members_step [OF val nv]
      by (simp add: skip_ws_simps is_ws_simps)
  next
    case False
    from "5.IH"(2) [OF sv False others m'(3) [OF False], of R]
    have rest: "parse_members (Suc m') (others @ 125 # R) =
        Some (map (\<lambda>(k, v). (json_decoded k, json_of v)) kvs, R)"
      and o: "others \<noteq> []" "hd others = 34" by simp_all
    obtain cs where cs: "others = 34 # cs" using o by (cases others) auto
    show ?thesis
      using hd rest False unfolding b m'(1) parse_members_step [OF val nv]
      by (simp add: skip_ws_simps is_ws_simps cs is_ws_def del: parse_value.simps parse_members.simps)
  qed
qed

lemma loads_dumps:
  assumes "json_dumps v = Inr s"
  shows "json_loads (s @ [10]) = Some (json_of v)"
proof -
  from dumps_parses(1) [OF assms, of "length s" "[10]"]
  have p: "parse_value (Suc (length s)) (s @ [10]) = Some (json_of v, [10])"
    and ne: "s \<noteq> []" "\<not> is_ws (hd s)" by simp_all
  obtain c cs where cs: "s = c # cs" using ne by (cases s) auto
  have ws: "skip_ws (s @ [10]) = s @ [10]" using ne cs by (simp add: skip_ws_simps)
  from dumps_parses(1) [OF assms, of "Suc (length s)" "[10]"]
  have "parse_value (Suc (Suc (length s))) (s @ [10]) = Some (json_of v, [10])" by simp
  then show ?thesis
    unfolding json_loads_def ws by (simp add: skip_ws_simps is_ws_simps del: parse_value.simps)
qed

lemma decoded_scalar: "scalar_values s \<Longrightarrow> json_decoded s = s"
  by (simp add: json_decoded_def merge_code_units)

section \<open>Runs of the script\<close>

lemma dumps_error: "json_dumps (PDict [(ascii ''error'', PStr msg)]) = Inr (butlast (error_line msg))"
  by (simp add: error_line_def butlast_append)

lemma report_error_eq:
  "report_error msg p = (SysExit 1, p\<lparr>stderr := stderr p @ error_line msg\<rparr>)"
proof -
  have "butlast (error_line msg) @ [10] = error_line msg"
    by (simp add: error_line_def butlast_append)
  then show ?thesis
    unfolding report_error_def dumps_error by (simp add: print_stderr_def)
qed

lemma dumps_success:
  "json_dumps (PDict [(ascii ''transcription'', PStr text)]) = Inr (butlast (success_line text))"
  by (simp add: success_line_def butlast_append)

lemma success_line_snoc: "butlast (success_line text) @ [10] = success_line text"
  by (simp add: success_line_def butlast_append)

lemma parse_args_nonempty: "parse_args w [] = ErrorExit RequiredArguments"
  by (simp add: parse_args_def consume_tail_def)

lemma main_parsed:
  assumes "parse_args w args = Namespace file_path language"
  shows "main w (argv0 # args) p = transcribe_audio w file_path language p"
proof -
  have "args \<noteq> []" using assms parse_args_nonempty [of w] by auto
  then show ?thesis using assms by (simp add: main_def)
qed

lemma run_parsed:
  assumes "parse_args w args = Namespace file_path language"
  shows "run w (argv0 # args) = interpreter_exit w (transcribe_audio w file_path language proc0)"
  by (simp add: run_def main_parsed [OF assms])

lemma transcribe_missing:
  assumes "\<not> path_exists w file_path"
  shows "transcribe_audio w file_path language proc0 =
    (SysExit 1, \<lparr>stdout = [], stderr = error_line (not_found_message file_path),
                 calls = [PathExists file_path]\<rparr>)"
  using assms by (simp add: transcribe_audio_def report_error_eq log_call_def proc0_def)

lemma transcribe_failed:
  assumes "path_exists w file_path"
    "try_body w file_path language (log_call (PathExists file_path) proc0) = (Inl e, p2)"
  shows "transcribe_audio w file_path language proc0 =
    (SysExit 1, p2\<lparr>stderr := stderr p2 @ error_line (error_message e)\<rparr>)"
  using assms by (simp add: transcribe_audio_def report_error_eq)

lemma transcribe_done:
  assumes "path_exists w file_path"
    "try_body w file_path language (log_call (PathExists file_path) proc0) = (Inr u, p2)"
  shows "transcribe_audio w file_path language proc0 = (Returned, p2)"
  using assms by (simp add: transcribe_audio_def)

lemma start_calls: "log_call (PathExists file_path) proc0 =
    \<lparr>stdout = [], stderr = [], calls = [PathExists file_path]\<rparr>"
  by (simp add: log_call_def proc0_def)

lemma try_load_fails:
  assumes "load_model w MODEL_SIZE = Inl e"
  shows "try_body w file_path language p = (Inl e, p\<lparr>calls := calls p @ [LoadModel MODEL_SIZE]\<rparr>)"
  using assms by (simp add: try_body_def log_call_def)

lemma try_transcribe_fails:
  assumes "load_model w MODEL_SIZE = Inr m"
    "model_transcribe w m file_path USE_FP16 language = Inl e"
  shows "try_body w file_path language p =
    (Inl e, p\<lparr>calls := calls p @ [LoadModel MODEL_SIZE, Transcribe m file_path USE_FP16 language]\<rparr>)"
  using assms by (simp add: try_body_def log_call_def)

lemma try_output:
  assumes "load_model w MODEL_SIZE = Inr m"
    "model_transcribe w m file_path USE_FP16 language = Inr result"
  shows "try_body w file_path language p =
    (let p2 = p\<lparr>calls := calls p @ [LoadModel MODEL_SIZE, Transcribe m file_path USE_FP16 language]\<rparr>
     in case getitem w result (ascii ''text'') of
          Inl e \<Rightarrow> (Inl e, p2)
        | Inr text \<Rightarrow>
           (case json_dumps (PDict [(ascii ''transcription'', text)]) of
              Inl e \<Rightarrow> (Inl e, p2)
            | Inr s \<Rightarrow>
               (case stdout_fault w of
                  Some e \<Rightarrow> (Inl e, p2)
                | None \<Rightarrow> (Inr (), p2\<lparr>stdout := stdout p2 @ s @ [10]\<rparr>))))"
  using assms
  by (simp add: try_body_def log_call_def print_stdout_def Let_def split: sum.splits option.splits)

lemma getitem_dict:
  "map_of entries k = Some v \<Longrightarrow> getitem w (PDict entries) k = Inr v"
  by (simp add: getitem_def)

text \<open>The lines of output are JSON objects with one key.\<close>

lemma decoded_key:
  "json_decoded (ascii ''transcription'') = ascii ''transcription''"
  "json_decoded (ascii ''error'') = ascii ''error''"
  by (rule decoded_scalar, simp add: scalar_values_def ascii_def)+

lemma loads_error_line:
  "json_loads (error_line msg) = Some (JObject [(ascii ''error'', JString (json_decoded msg))])"
proof -
  have "butlast (error_line msg) @ [10] = error_line msg"
    by (simp add: error_line_def butlast_append)
  with loads_dumps [OF dumps_error [of msg]] show ?thesis by (simp add: decoded_key)
qed

lemma loads_success_line:
  "json_loads (success_line t) =
     Some (JObject [(ascii ''transcription'', JString (json_decoded t))])"
  using loads_dumps [OF dumps_success [of t]] by (simp add: success_line_snoc decoded_key)


text \<open>The two error lines are never the same, and never empty.\<close>

lemma error_lines_differ:
  "error_line (error_message e) \<noteq> error_line (not_found_message f)"
proof
  assume "error_line (error_message e) = error_line (not_found_message f)"
  then have "encode_basestring_ascii (error_message e) =
      encode_basestring_ascii (not_found_message f)"
    by (simp add: error_line_def)
  moreover have "hd (tl (encode_basestring_ascii (error_message e))) = 69"
    by (simp add: encode_basestring_ascii_def error_message_def ascii_def escape_char_def)
  moreover have "hd (tl (encode_basestring_ascii (not_found_message f))) = 65"
    by (simp add: encode_basestring_ascii_def not_found_message_def ascii_def escape_char_def)
  ultimately show False by simp
qed

lemma error_line_nonempty: "[] \<noteq> error_line msg"
  by (simp add: error_line_def)

text \<open>The help text is not JSON, whatever the program name and the width of the terminal.\<close>

lemma loads_usage: "json_loads (ascii ''usage: '' @ rest) = None"
  by (simp add: json_loads_def ascii_def skip_ws_def is_ws_def parse_number_def number_int_def
      is_digit_def)

text \<open>What the \<^verbatim>\<open>try\<close> statement does to the process.\<close>

lemma try_body_fst: "fst (try_body w f l p) = fst (try_body w f l proc0)"
  by (simp add: try_body_def print_stdout_def Let_def split: sum.splits option.splits)

lemma try_body_calls: "calls (snd (try_body w f l p)) = calls p @ model_calls w f l"
  by (simp add: try_body_def model_calls_def print_stdout_def log_call_def Let_def
      split: sum.splits option.splits)

lemma try_body_stderr: "stderr (snd (try_body w f l p)) = stderr p"
  by (simp add: try_body_def print_stdout_def log_call_def Let_def
      split: sum.splits option.splits)

lemma try_body_stdout_raised:
  "fst (try_body w f l p) = Inl e \<Longrightarrow> stdout (snd (try_body w f l p)) = stdout p"
  by (simp add: try_body_def print_stdout_def log_call_def Let_def
      split: sum.splits option.splits)

lemma try_body_stdout_done:
  assumes "fst (try_body w f l p) = Inr u"
  shows "\<exists>v s. json_dumps (PDict [(ascii ''transcription'', v)]) = Inr s \<and>
         stdout (snd (try_body w f l p)) = stdout p @ s @ [10]"
proof -
  obtain m where m: "load_model w MODEL_SIZE = Inr m"
    using assms by (cases "load_model w MODEL_SIZE") (simp_all add: try_body_def Let_def)
  obtain result where r: "model_transcribe w m f USE_FP16 l = Inr result"
    using assms m
    by (cases "model_transcribe w m f USE_FP16 l") (simp_all add: try_body_def Let_def)
  note t = try_output [OF m r, of p]
  obtain v where v: "getitem w result (ascii ''text'') = Inr v"
    using assms unfolding t
    by (cases "getitem w result (ascii ''text'')") (simp_all add: Let_def)
  obtain s where s: "json_dumps (PDict [(ascii ''transcription'', v)]) = Inr s"
    using assms unfolding t
    by (cases "json_dumps (PDict [(ascii ''transcription'', v)])")
      (simp_all add: Let_def v del: json_dumps.simps)
  have "stdout_fault w = None"
    using assms unfolding t
    by (cases "stdout_fault w") (simp_all add: Let_def v s del: json_dumps.simps)
  then have "stdout (snd (try_body w f l p)) = stdout p @ s @ [10]"
    unfolding t by (simp add: Let_def v s del: json_dumps.simps)
  with s show ?thesis by blast
qed

lemma model_calls_are_model_calls: "list_all is_model_call (model_calls w f l)"
  by (simp add: model_calls_def is_model_call_def split: sum.splits)

lemma proc_components:
  "stdout p = a \<Longrightarrow> stderr p = b \<Longrightarrow> calls p = c \<Longrightarrow>
   p = \<lparr>stdout = a, stderr = b, calls = c\<rparr>"
  by (cases p) simp

text \<open>The three ways a run with an accepted command line ends.\<close>

lemma run_missing:
  assumes "parse_args w args = Namespace f l" "\<not> path_exists w f"
  shows "main w (argv0 # args) proc0 =
           (SysExit 1, \<lparr>stdout = [], stderr = error_line (not_found_message f),
                        calls = [PathExists f]\<rparr>)"
    and "run w (argv0 # args) =
           (1, \<lparr>stdout = [], stderr = error_line (not_found_message f),
                calls = [PathExists f]\<rparr>)"
  using transcribe_missing [OF assms(2), of l]
  by (simp_all add: run_parsed [OF assms(1)] main_parsed [OF assms(1)] interpreter_exit_def)

lemma run_raised:
  assumes "parse_args w args = Namespace f l" "path_exists w f"
    "fst (try_body w f l proc0) = Inl e"
  shows "main w (argv0 # args) proc0 =
           (SysExit 1, \<lparr>stdout = [], stderr = error_line (error_message e),
                        calls = PathExists f # model_calls w f l\<rparr>)"
    and "run w (argv0 # args) =
           (1, \<lparr>stdout = [], stderr = error_line (error_message e),
                calls = PathExists f # model_calls w f l\<rparr>)"
proof -
  let ?p1 = "log_call (PathExists f) proc0"
  obtain r p2 where t: "try_body w f l ?p1 = (r, p2)" by (cases "try_body w f l ?p1")
  have r: "r = Inl e" using try_body_fst [of w f l ?p1] t assms(3) by simp
  have "fst (try_body w f l ?p1) = Inl e" using t r by simp
  from try_body_stdout_raised [OF this]
  have "stdout p2 = []" using t by (simp add: start_calls)
  moreover have "stderr p2 = []" using try_body_stderr [of w f l ?p1] t by (simp add: start_calls)
  moreover have "calls p2 = PathExists f # model_calls w f l"
    using try_body_calls [of w f l ?p1] t by (simp add: start_calls)
  ultimately have p2: "p2 = \<lparr>stdout = [], stderr = [], calls = PathExists f # model_calls w f l\<rparr>"
    by (rule proc_components)
  have "transcribe_audio w f l proc0 =
      (SysExit 1, p2\<lparr>stderr := stderr p2 @ error_line (error_message e)\<rparr>)"
    using t r by (intro transcribe_failed [OF assms(2)]) simp
  then have m: "transcribe_audio w f l proc0 =
      (SysExit 1, \<lparr>stdout = [], stderr = error_line (error_message e),
                   calls = PathExists f # model_calls w f l\<rparr>)"
    by (simp add: p2)
  show "main w (argv0 # args) proc0 =
           (SysExit 1, \<lparr>stdout = [], stderr = error_line (error_message e),
                        calls = PathExists f # model_calls w f l\<rparr>)"
    using m by (simp add: main_parsed [OF assms(1)])
  show "run w (argv0 # args) =
           (1, \<lparr>stdout = [], stderr = error_line (error_message e),
                calls = PathExists f # model_calls w f l\<rparr>)"
    using m by (simp add: run_parsed [OF assms(1)] interpreter_exit_def)
qed

lemma run_completed:
  assumes "parse_args w args = Namespace f l" "path_exists w f"
    "fst (try_body w f l proc0) = Inr ()"
  shows "\<exists>v s. json_dumps (PDict [(ascii ''transcription'', v)]) = Inr s \<and>
           run w (argv0 # args) =
             (0, \<lparr>stdout = s @ [10], stderr = [], calls = PathExists f # model_calls w f l\<rparr>)"
proof -
  let ?p1 = "log_call (PathExists f) proc0"
  obtain r p2 where t: "try_body w f l ?p1 = (r, p2)" by (cases "try_body w f l ?p1")
  have r: "r = Inr ()" using try_body_fst [of w f l ?p1] t assms(3) by simp
  have "fst (try_body w f l ?p1) = Inr ()" using t r by simp
  from try_body_stdout_done [OF this]
  obtain v s where s: "json_dumps (PDict [(ascii ''transcription'', v)]) = Inr s"
    and out: "stdout p2 = s @ [10]"
    using t by (auto simp: start_calls)
  have "stderr p2 = []" using try_body_stderr [of w f l ?p1] t by (simp add: start_calls)
  moreover have "calls p2 = PathExists f # model_calls w f l"
    using try_body_calls [of w f l ?p1] t by (simp add: start_calls)
  ultimately have p2: "p2 = \<lparr>stdout = s @ [10], stderr = [],
      calls = PathExists f # model_calls w f l\<rparr>"
    using out by (intro proc_components)
  have "transcribe_audio w f l proc0 = (Returned, p2)"
    using t r by (intro transcribe_done [OF assms(2)]) simp
  then have "run w (argv0 # args) =
             (0, \<lparr>stdout = s @ [10], stderr = [], calls = PathExists f # model_calls w f l\<rparr>)"
    by (simp add: run_parsed [OF assms(1)] interpreter_exit_def p2)
  with s show ?thesis by blast
qed

lemma try_body_outcome: "(\<exists>e. fst (try_body w f l proc0) = Inl e) \<or> fst (try_body w f l proc0) = Inr ()"
  by (cases "fst (try_body w f l proc0)") auto

text \<open>Runs that do not reach \<^verbatim>\<open>transcribe_audio\<close>.\<close>

lemma run_no_arguments:
  "run w [argv0] =
     (1, \<lparr>stdout = [], stderr = format_help w (basename w argv0), calls = []\<rparr>)"
  by (simp add: run_def main_def interpreter_exit_def write_stderr_def proc0_def)

lemma run_rejected:
  assumes "args \<noteq> []" "parse_args w args = ErrorExit err"
  shows "fst (run w (argv0 # args)) = 2" "calls (snd (run w (argv0 # args))) = []"
  using assms
  by (simp_all add: run_def main_def interpreter_exit_def write_stderr_def proc0_def Let_def)

lemma run_help:
  assumes "args \<noteq> []" "parse_args w args = HelpExit"
  shows "fst (run w (argv0 # args)) = (if help_printed w then 0 else 1)"
    "calls (snd (run w (argv0 # args))) = []"
  using assms
  by (simp_all add: run_def main_def interpreter_exit_def write_stderr_def proc0_def
      print_message_stdout_def help_printed_def split: option.splits)

lemma run_empty_argv: "fst (run w []) = 1" "calls (snd (run w [])) = []"
  by (simp_all add: run_def main_def interpreter_exit_def write_stderr_def proc0_def)

text \<open>
  Every string is accepted as the value of \<^verbatim>\<open>--language=\<close>: the parser has no
  \<^verbatim>\<open>choices\<close> and no \<^verbatim>\<open>type\<close> for the option.
\<close>

lemma explicit_language_accepted:
  assumes "file_path \<noteq> []" "hd file_path \<noteq> 45"
  shows "parse_args w [ascii ''--language='' @ code, file_path] =
         Namespace file_path (Some code)"
proof -
  let ?s = "ascii ''--language='' @ code"
  have part: "partition_eq ?s = (ascii ''--language'', [61], code)"
    by (simp add: partition_eq_def ascii_def)
  have opt: "parse_optional w ?s =
      Inr (Some (Some LanguageAction, ascii ''--language'', Some [61], Some code))"
    unfolding parse_optional_def part
    by (simp add: option_string_actions_def ascii_def)
  have pos: "parse_optional w file_path = Inr None"
    using assms by (simp add: parse_optional_def)
  have ne: "?s \<noteq> [45, 45]" "file_path \<noteq> [45, 45]"
    using assms by (auto simp: ascii_def)
  have "classify_args w [?s, file_path] =
      Inr [(?s, ArgO (Some LanguageAction, ascii ''--language'', Some [61], Some code)),
           (file_path, ArgA)]"
    using ne by (simp add: opt pos)
  then show ?thesis
    by (simp add: parse_args_def has_optional_def consume_tail_def)
qed

section \<open>The properties of the specification\<close>

text \<open>
  In what follows, a run of the script with the audio file \<^verbatim>\<open>file_path\<close> and the language
  \<^verbatim>\<open>language\<close> is a run whose arguments \<^verbatim>\<open>parse_args\<close> turns into the namespace with
  these two values.
\<close>

text \<open>
  Claim C1. When the file exists, the model loads, it transcribes the file with no
  language given, its result is a dictionary whose \<^verbatim>\<open>text\<close> is a string, and the
  standard output takes the write, then the process ends with status 0; the standard
  output holds exactly the line \<^verbatim>\<open>{"transcription": text}\<close>, whatever else the result
  holds; nothing is on the standard error; and that line is one JSON object whose only
  key is \<^verbatim>\<open>transcription\<close>. Its value reads back as the text itself when the text has
  no surrogate code point.
\<close>

theorem transcription_success_output:
  assumes "parse_args w args = Namespace file_path None"
    and "path_exists w file_path"
    and "load_model w MODEL_SIZE = Inr m"
    and "model_transcribe w m file_path USE_FP16 None = Inr (PDict entries)"
    and "map_of entries (ascii ''text'') = Some (PStr text)"
    and "stdout_fault w = None"
  shows "run w (argv0 # args) =
           (0, \<lparr>stdout = success_line text, stderr = [],
                calls = [PathExists file_path, LoadModel MODEL_SIZE,
                         Transcribe m file_path USE_FP16 None]\<rparr>) \<and>
         json_loads (success_line text) =
           Some (JObject [(ascii ''transcription'', JString (json_decoded text))]) \<and>
         (scalar_values text \<longrightarrow> json_decoded text = text)"
proof -
  have "try_body w file_path None (log_call (PathExists file_path) proc0) =
      (Inr (), \<lparr>stdout = success_line text, stderr = [],
                calls = [PathExists file_path, LoadModel MODEL_SIZE,
                         Transcribe m file_path USE_FP16 None]\<rparr>)"
    unfolding try_output [OF assms(3,4)] start_calls
    by (simp add: getitem_dict [OF assms(5)] assms(6) success_line_def)
  from transcribe_done [OF assms(2) this]
  have r: "run w (argv0 # args) =
           (0, \<lparr>stdout = success_line text, stderr = [],
                calls = [PathExists file_path, LoadModel MODEL_SIZE,
                         Transcribe m file_path USE_FP16 None]\<rparr>)"
    by (simp add: run_parsed [OF assms(1)] interpreter_exit_def)
  with loads_success_line [of "text"] decoded_scalar [of "text"] show ?thesis by simp
qed

theorem transcription_success_output_witness:
  "parse_args demo_world [ascii ''audio.wav''] = Namespace (ascii ''audio.wav'') None \<and>
   path_exists demo_world (ascii ''audio.wav'') \<and>
   stdout_fault demo_world = None \<and>
   scalar_values (ascii '' hola'') \<and>
   run demo_world [ascii ''transcribe.py'', ascii ''audio.wav''] =
     (0, \<lparr>stdout = success_line (ascii '' hola''), stderr = [],
          calls = [PathExists (ascii ''audio.wav''), LoadModel MODEL_SIZE,
                   Transcribe 0 (ascii ''audio.wav'') USE_FP16 None]\<rparr>) \<and>
   json_loads (success_line (ascii '' hola'')) =
     Some (JObject [(ascii ''transcription'', JString (ascii '' hola''))])"
proof -
  have h1: "parse_args demo_world [ascii ''audio.wav''] = Namespace (ascii ''audio.wav'') None"
    by code_simp
  have h2: "path_exists demo_world (ascii ''audio.wav'')" by code_simp
  have h3: "load_model demo_world MODEL_SIZE = Inr 0" by code_simp
  have h4: "model_transcribe demo_world 0 (ascii ''audio.wav'') USE_FP16 None =
      Inr (PDict [(ascii ''text'', PStr (ascii '' hola'')), (ascii ''language'', PStr (ascii ''es''))])"
    by code_simp
  have h5: "map_of [(ascii ''text'', PStr (ascii '' hola'')), (ascii ''language'', PStr (ascii ''es''))]
      (ascii ''text'') = Some (PStr (ascii '' hola''))"
    by code_simp
  have h6: "stdout_fault demo_world = None" by code_simp
  have h7: "scalar_values (ascii '' hola'')" by (simp add: scalar_values_def ascii_def)
  from transcription_success_output [OF h1 h2 h3 h4 h5 h6, of "ascii ''transcribe.py''"]
    h1 h2 h6 h7
  show ?thesis by simp
qed

text \<open>
  Claim C2. When the file does not exist, the process ends with status 1, the standard
  error holds exactly the line \<^verbatim>\<open>{"error": "Archivo de audio no encontrado: ..."}\<close>,
  which is one JSON object with the key \<^verbatim>\<open>error\<close>, and nothing is on the standard
  output.
\<close>

theorem missing_file_reported:
  assumes "parse_args w args = Namespace file_path language"
    and "\<not> path_exists w file_path"
  shows "run w (argv0 # args) =
           (1, \<lparr>stdout = [], stderr = error_line (not_found_message file_path),
                calls = [PathExists file_path]\<rparr>) \<and>
         json_loads (error_line (not_found_message file_path)) =
           Some (JObject [(ascii ''error'', JString (json_decoded (not_found_message file_path)))])"
  using run_missing(2) [OF assms] loads_error_line by simp

theorem missing_file_reported_witness:
  "parse_args demo_world [ascii ''missing.wav''] = Namespace (ascii ''missing.wav'') None \<and>
   \<not> path_exists demo_world (ascii ''missing.wav'') \<and>
   run demo_world [ascii ''transcribe.py'', ascii ''missing.wav''] =
     (1, \<lparr>stdout = [], stderr = error_line (not_found_message (ascii ''missing.wav'')),
          calls = [PathExists (ascii ''missing.wav'')]\<rparr>) \<and>
   json_loads (error_line (not_found_message (ascii ''missing.wav''))) =
     Some (JObject [(ascii ''error'',
       JString (json_decoded (not_found_message (ascii ''missing.wav''))))])"
proof -
  have h1: "parse_args demo_world [ascii ''missing.wav''] = Namespace (ascii ''missing.wav'') None"
    by code_simp
  have h2: "\<not> path_exists demo_world (ascii ''missing.wav'')" by code_simp
  from missing_file_reported [OF h1 h2, of "ascii ''transcribe.py''"] h1 h2
  show ?thesis by simp
qed

text \<open>
  Claim C3. When the file exists and loading the model raises an exception, or the model
  loads and transcribing raises one, the handler catches it: the script leaves through
  \<^verbatim>\<open>sys.exit(1)\<close>, not through an uncaught exception; the process ends with status 1; the
  standard error holds exactly the line \<^verbatim>\<open>{"error": msg}\<close>, where \<^verbatim>\<open>msg\<close> is the generic
  message followed by \<^verbatim>\<open>str(e)\<close>, which is one JSON object with the key \<^verbatim>\<open>error\<close>; and
  nothing is on the standard output.
\<close>

theorem model_failure_reported:
  assumes "parse_args w args = Namespace file_path language"
    and "path_exists w file_path"
    and "load_model w MODEL_SIZE = Inl e \<or>
         (\<exists>m. load_model w MODEL_SIZE = Inr m \<and>
              model_transcribe w m file_path USE_FP16 language = Inl e)"
  shows "fst (main w (argv0 # args) proc0) = SysExit 1 \<and>
         run w (argv0 # args) =
           (1, \<lparr>stdout = [], stderr = error_line (error_message e),
                calls = PathExists file_path # model_calls w file_path language\<rparr>) \<and>
         json_loads (error_line (error_message e)) =
           Some (JObject [(ascii ''error'', JString (json_decoded (error_message e)))])"
proof -
  have "fst (try_body w file_path language proc0) = Inl e"
    using assms(3) try_load_fails [of w e file_path language proc0]
      try_transcribe_fails [of w _ file_path language e proc0]
    by auto
  from run_raised [OF assms(1,2) this, of argv0] loads_error_line [of "error_message e"]
  show ?thesis by simp
qed

theorem model_failure_reported_witness:
  "parse_args demo_world [ascii ''notes.txt''] = Namespace (ascii ''notes.txt'') None \<and>
   path_exists demo_world (ascii ''notes.txt'') \<and>
   load_model demo_world MODEL_SIZE = Inr 0 \<and>
   model_transcribe demo_world 0 (ascii ''notes.txt'') USE_FP16 None =
     Inl (PyExc (OtherException (ascii ''RuntimeError'')) (ascii ''Failed to load audio'')) \<and>
   fst (main demo_world [ascii ''transcribe.py'', ascii ''notes.txt''] proc0) = SysExit 1 \<and>
   run demo_world [ascii ''transcribe.py'', ascii ''notes.txt''] =
     (1, \<lparr>stdout = [],
          stderr = error_line (error_message
            (PyExc (OtherException (ascii ''RuntimeError'')) (ascii ''Failed to load audio''))),
          calls = [PathExists (ascii ''notes.txt''), LoadModel MODEL_SIZE,
                   Transcribe 0 (ascii ''notes.txt'') USE_FP16 None]\<rparr>) \<and>
   json_loads (error_line (error_message
       (PyExc (OtherException (ascii ''RuntimeError'')) (ascii ''Failed to load audio'')))) =
     Some (JObject [(ascii ''error'', JString (json_decoded (error_message
       (PyExc (OtherException (ascii ''RuntimeError'')) (ascii ''Failed to load audio'')))))])"
proof -
  let ?e = "PyExc (OtherException (ascii ''RuntimeError'')) (ascii ''Failed to load audio'')"
  have h1: "parse_args demo_world [ascii ''notes.txt''] = Namespace (ascii ''notes.txt'') None"
    by code_simp
  have h2: "path_exists demo_world (ascii ''notes.txt'')" by code_simp
  have h3: "load_model demo_world MODEL_SIZE = Inr 0" by code_simp
  have h4: "model_transcribe demo_world 0 (ascii ''notes.txt'') USE_FP16 None = Inl ?e"
    by code_simp
  have h5: "load_model demo_world MODEL_SIZE = Inl ?e \<or>
         (\<exists>m. load_model demo_world MODEL_SIZE = Inr m \<and>
              model_transcribe demo_world m (ascii ''notes.txt'') USE_FP16 None = Inl ?e)"
    using h3 h4 by blast
  have h6: "model_calls demo_world (ascii ''notes.txt'') None =
      [LoadModel MODEL_SIZE, Transcribe 0 (ascii ''notes.txt'') USE_FP16 None]"
    by (simp add: model_calls_def h3)
  from model_failure_reported [OF h1 h2 h5, of "ascii ''transcribe.py''"] h1 h2 h3 h4 h6
  show ?thesis by simp
qed






text \<open>
  Claim C6. With no argument at all, the process ends with status 1 and the standard
  error holds the help text of the parser, which starts with the usage line; nothing is
  on the standard output, and nothing outside the script is called.
\<close>

theorem no_arguments_prints_usage:
  "run w [argv0] =
     (1, \<lparr>stdout = [],
          stderr = ascii ''usage: '' @ usage_line w (basename w argv0) @ [10, 10] @ help_body w,
          calls = []\<rparr>) \<and>
   format_help w (basename w argv0) =
     ascii ''usage: '' @ usage_line w (basename w argv0) @ [10, 10] @ help_body w"
  by (simp add: run_no_arguments format_help_def)

text \<open>
  Claim C7. The calls of a run, in order: with accepted arguments, first
  \<^verbatim>\<open>os.path.exists\<close> on the given path, then the calls into the model when the path
  exists, and no other call when it does not; with no accepted arguments, no call at all.
  Every call after the first is a call into the model.
\<close>

theorem existence_check_first:
  "calls (snd (run w argv)) =
     (case parse_args w (tl argv) of
        Namespace file_path language \<Rightarrow>
          PathExists file_path #
          (if path_exists w file_path then model_calls w file_path language else [])
      | _ \<Rightarrow> []) \<and>
   list_all is_model_call (model_calls w file_path language) \<and>
   (\<not> path_exists w file_path \<longrightarrow> parse_args w (tl argv) = Namespace file_path language \<longrightarrow>
      calls (snd (run w argv)) = [PathExists file_path])"
proof -
  have c: "calls (snd (run w argv)) =
     (case parse_args w (tl argv) of
        Namespace file_path language \<Rightarrow>
          PathExists file_path #
          (if path_exists w file_path then model_calls w file_path language else [])
      | _ \<Rightarrow> [])"
  proof (cases argv)
    case Nil
    then show ?thesis by (simp add: run_empty_argv parse_args_nonempty)
  next
    case (Cons argv0 args)
    show ?thesis
    proof (cases "args = []")
      case True
      then show ?thesis using Cons by (simp add: run_no_arguments parse_args_nonempty)
    next
      case False
      show ?thesis
      proof (cases "parse_args w args")
        case (Namespace f l)
        show ?thesis
        proof (cases "path_exists w f")
          case missing: False
          then show ?thesis
            using Cons Namespace run_missing(2) [OF Namespace missing, of argv0] by simp
        next
          case True
          from try_body_outcome [of w f l] show ?thesis
          proof (elim disjE exE)
            fix e
            assume e: "fst (try_body w f l proc0) = Inl e"
            then show ?thesis
              using Cons Namespace True run_raised(2) [OF Namespace True e, of argv0] by simp
          next
            assume d: "fst (try_body w f l proc0) = Inr ()"
            from run_completed [OF Namespace True d, of argv0]
            have "calls (snd (run w (argv0 # args))) = PathExists f # model_calls w f l"
              by auto
            then show ?thesis using Cons Namespace True by simp
          qed
        qed
      next
        case HelpExit
        then show ?thesis using Cons run_help(2) [OF False HelpExit, of argv0] by simp
      next
        case (ErrorExit err)
        then show ?thesis using Cons run_rejected(2) [OF False ErrorExit, of argv0] by simp
      qed
    qed
  qed
  show ?thesis
    unfolding c using model_calls_are_model_calls [of w file_path language] by simp
qed

theorem existence_check_first_witness:
  "\<not> path_exists demo_world (ascii ''missing.wav'') \<and>
   parse_args demo_world (tl [ascii ''transcribe.py'', ascii ''missing.wav'']) =
     Namespace (ascii ''missing.wav'') None \<and>
   calls (snd (run demo_world [ascii ''transcribe.py'', ascii ''missing.wav''])) =
     [PathExists (ascii ''missing.wav'')] \<and>
   list_all is_model_call (model_calls demo_world (ascii ''missing.wav'') None)"
proof -
  have h1: "\<not> path_exists demo_world (ascii ''missing.wav'')" by code_simp
  have h2: "parse_args demo_world (tl [ascii ''transcribe.py'', ascii ''missing.wav'']) =
     Namespace (ascii ''missing.wav'') None"
    by code_simp
  from existence_check_first [of demo_world "[ascii ''transcribe.py'', ascii ''missing.wav'']"
      "ascii ''missing.wav''" None] h1 h2
  show ?thesis by simp
qed



text \<open>
  Claim C9. When the model has returned a result and then \<^verbatim>\<open>result["text"]\<close> raises an
  exception, or \<^verbatim>\<open>json.dumps\<close> of the success object raises one, or printing it on the
  standard output raises one, the handler catches it: the script leaves through
  \<^verbatim>\<open>sys.exit(1)\<close>, not through an uncaught exception; the process ends with status 1;
  the standard error holds exactly the error line with \<^verbatim>\<open>str(e)\<close>, which is one JSON
  object with the key \<^verbatim>\<open>error\<close>; and nothing is on the standard output.
\<close>

theorem output_step_guarded:
  assumes "parse_args w args = Namespace file_path language"
    and "path_exists w file_path"
    and "load_model w MODEL_SIZE = Inr m"
    and "model_transcribe w m file_path USE_FP16 language = Inr result"
    and "getitem w result (ascii ''text'') = Inl e \<or>
         (\<exists>v. getitem w result (ascii ''text'') = Inr v \<and>
              (json_dumps (PDict [(ascii ''transcription'', v)]) = Inl e \<or>
               (\<exists>s. json_dumps (PDict [(ascii ''transcription'', v)]) = Inr s \<and>
                    stdout_fault w = Some e)))"
  shows "fst (main w (argv0 # args) proc0) = SysExit 1 \<and>
         run w (argv0 # args) =
           (1, \<lparr>stdout = [], stderr = error_line (error_message e),
                calls = [PathExists file_path, LoadModel MODEL_SIZE,
                         Transcribe m file_path USE_FP16 language]\<rparr>) \<and>
         json_loads (error_line (error_message e)) =
           Some (JObject [(ascii ''error'', JString (json_decoded (error_message e)))])"
proof -
  have "fst (try_body w file_path language proc0) = Inl e"
    unfolding try_output [OF assms(3,4)] using assms(5) by (auto simp: Let_def)
  from run_raised [OF assms(1,2) this, of argv0] loads_error_line [of "error_message e"]
  show ?thesis by (simp add: model_calls_def assms(3))
qed

theorem output_step_guarded_witness:
  "parse_args demo_world [ascii ''silent.wav''] = Namespace (ascii ''silent.wav'') None \<and>
   path_exists demo_world (ascii ''silent.wav'') \<and>
   load_model demo_world MODEL_SIZE = Inr 0 \<and>
   model_transcribe demo_world 0 (ascii ''silent.wav'') USE_FP16 None =
     Inr (PDict [(ascii ''language'', PStr (ascii ''en''))]) \<and>
   getitem demo_world (PDict [(ascii ''language'', PStr (ascii ''en''))]) (ascii ''text'') =
     Inl (PyExc KeyError ([39] @ ascii ''text'' @ [39])) \<and>
   fst (main demo_world [ascii ''transcribe.py'', ascii ''silent.wav''] proc0) = SysExit 1 \<and>
   run demo_world [ascii ''transcribe.py'', ascii ''silent.wav''] =
     (1, \<lparr>stdout = [],
          stderr = error_line (error_message (PyExc KeyError ([39] @ ascii ''text'' @ [39]))),
          calls = [PathExists (ascii ''silent.wav''), LoadModel MODEL_SIZE,
                   Transcribe 0 (ascii ''silent.wav'') USE_FP16 None]\<rparr>) \<and>
   json_loads (error_line (error_message (PyExc KeyError ([39] @ ascii ''text'' @ [39])))) =
     Some (JObject [(ascii ''error'',
       JString (json_decoded (error_message (PyExc KeyError ([39] @ ascii ''text'' @ [39])))))])"
proof -
  let ?e = "PyExc KeyError ([39] @ ascii ''text'' @ [39])"
  let ?r = "PDict [(ascii ''language'', PStr (ascii ''en''))]"
  have h1: "parse_args demo_world [ascii ''silent.wav''] = Namespace (ascii ''silent.wav'') None"
    by code_simp
  have h2: "path_exists demo_world (ascii ''silent.wav'')" by code_simp
  have h3: "load_model demo_world MODEL_SIZE = Inr 0" by code_simp
  have h4: "model_transcribe demo_world 0 (ascii ''silent.wav'') USE_FP16 None = Inr ?r"
    by code_simp
  have h5: "getitem demo_world ?r (ascii ''text'') = Inl ?e" by code_simp
  have h6: "getitem demo_world ?r (ascii ''text'') = Inl ?e \<or>
         (\<exists>v. getitem demo_world ?r (ascii ''text'') = Inr v \<and>
              (json_dumps (PDict [(ascii ''transcription'', v)]) = Inl ?e \<or>
               (\<exists>s. json_dumps (PDict [(ascii ''transcription'', v)]) = Inr s \<and>
                    stdout_fault demo_world = Some ?e)))"
    using h5 by blast
  from output_step_guarded [OF h1 h2 h3 h4 h6, of "ascii ''transcribe.py''"] h1 h2 h3 h4 h5
  show ?thesis by simp
qed

text \<open>
  Claim C10. When the path exists, whatever it is, the model is loaded and, when
  loading gave a model, asked to transcribe the path; the standard error never holds the
  file-not-found line; and when the process ends with a status other than 0, the
  \<^verbatim>\<open>try\<close> statement raised an exception and the standard error holds exactly the line
  with the generic message and \<^verbatim>\<open>str(e)\<close>.
\<close>

theorem existing_path_handed_to_model:
  assumes "parse_args w args = Namespace file_path language"
    and "path_exists w file_path"
  shows "calls (snd (run w (argv0 # args))) =
           PathExists file_path # model_calls w file_path language \<and>
         stderr (snd (run w (argv0 # args))) \<noteq> error_line (not_found_message file_path) \<and>
         (fst (run w (argv0 # args)) \<noteq> 0 \<longrightarrow>
            (\<exists>e. fst (try_body w file_path language proc0) = Inl e \<and>
                 stderr (snd (run w (argv0 # args))) = error_line (error_message e)))"
proof -
  from try_body_outcome [of w file_path language] show ?thesis
  proof (elim disjE exE)
    fix e
    assume e: "fst (try_body w file_path language proc0) = Inl e"
    from run_raised(2) [OF assms e, of argv0] e error_lines_differ [of e file_path]
    show ?thesis by simp
  next
    assume "fst (try_body w file_path language proc0) = Inr ()"
    from run_completed [OF assms this, of argv0] error_line_nonempty [of "not_found_message file_path"]
    show ?thesis by auto
  qed
qed

theorem existing_path_handed_to_model_witness:
  "parse_args demo_world [ascii ''notes.txt''] = Namespace (ascii ''notes.txt'') None \<and>
   path_exists demo_world (ascii ''notes.txt'') \<and>
   fst (run demo_world [ascii ''transcribe.py'', ascii ''notes.txt'']) \<noteq> 0 \<and>
   calls (snd (run demo_world [ascii ''transcribe.py'', ascii ''notes.txt''])) =
     [PathExists (ascii ''notes.txt''), LoadModel MODEL_SIZE,
      Transcribe 0 (ascii ''notes.txt'') USE_FP16 None] \<and>
   stderr (snd (run demo_world [ascii ''transcribe.py'', ascii ''notes.txt''])) \<noteq>
     error_line (not_found_message (ascii ''notes.txt'')) \<and>
   (\<exists>e. fst (try_body demo_world (ascii ''notes.txt'') None proc0) = Inl e \<and>
        stderr (snd (run demo_world [ascii ''transcribe.py'', ascii ''notes.txt''])) =
          error_line (error_message e))"
proof -
  have h1: "parse_args demo_world [ascii ''notes.txt''] = Namespace (ascii ''notes.txt'') None"
    by code_simp
  have h2: "path_exists demo_world (ascii ''notes.txt'')" by code_simp
  have h3: "fst (run demo_world [ascii ''transcribe.py'', ascii ''notes.txt'']) \<noteq> 0"
    by code_simp
  have h4: "model_calls demo_world (ascii ''notes.txt'') None =
      [LoadModel MODEL_SIZE, Transcribe 0 (ascii ''notes.txt'') USE_FP16 None]"
    by code_simp
  from existing_path_handed_to_model [OF h1 h2, of "ascii ''transcribe.py''"] h1 h2 h3 h4
  show ?thesis by simp
qed

end
